theory Spec2Isabelle
  imports Main "HOL-Library.Word"
begin

unbundle bit_operations_syntax

section \<open>Values of the host language\<close>

text \<open>
  A \<open>Uint8Array\<close> is a list of bytes. A string is the sequence of its 16-bit code
  units, which is what \<open>length\<close> and \<open>charCodeAt\<close> read. Numbers are modelled as
  integers (sequence numbers, payload type tags, offsets and clock readings are integral
  in this program); the 32-bit coercions of the bitwise operators are written out.
\<close>

type_synonym byte = "8 word"
type_synonym bytes = "byte list"
type_synonym jsstring = "16 word list"

definition js :: "string \<Rightarrow> jsstring" where
  \<comment> \<open>an ASCII string literal of the source\<close>
  "js s = map of_char s"

datatype error =
    Error string        \<comment> \<open>\<open>throw new Error( msg )\<close>\<close>
  | RangeError          \<comment> \<open>a typed-array write that does not fit\<close>
  | SyntaxError         \<comment> \<open>\<open>JSON.parse\<close> on malformed text\<close>
  | TypeError           \<comment> \<open>a property read on \<open>undefined\<close> or \<open>null\<close>\<close>
  | Untyped             \<comment> \<open>not an exception: a value of a shape the model does not follow
                            (outside the declared type, or an unexpected control payload)\<close>

definition and_then :: "error + 'a \<Rightarrow> ('a \<Rightarrow> error + 'b) \<Rightarrow> error + 'b" where
  \<comment> \<open>sequencing of statements: an exception skips what follows\<close>
  "and_then r f = (case r of Inl e \<Rightarrow> Inl e | Inr x \<Rightarrow> f x)"

subsection \<open>32-bit integer operators\<close>

definition toInt32 :: "int \<Rightarrow> int" where
  "toInt32 v = sint (word_of_int v :: 32 word)"

definition js_shl :: "int \<Rightarrow> nat \<Rightarrow> int" where
  \<comment> \<open>\<open>a << n\<close>\<close>
  "js_shl a n = toInt32 (push_bit (n mod 32) (toInt32 a))"

definition js_sar :: "int \<Rightarrow> nat \<Rightarrow> int" where
  \<comment> \<open>\<open>a >> n\<close>, sign-propagating\<close>
  "js_sar a n = drop_bit (n mod 32) (toInt32 a)"

definition js_and :: "int \<Rightarrow> int \<Rightarrow> int" where
  \<comment> \<open>\<open>a & b\<close>\<close>
  "js_and a b = toInt32 a AND toInt32 b"

definition toUint8 :: "int \<Rightarrow> byte" where
  \<comment> \<open>the conversion applied to a number stored into a \<open>Uint8Array\<close>\<close>
  "toUint8 v = word_of_int v"

subsection \<open>Typed arrays\<close>

definition new_Uint8Array :: "nat \<Rightarrow> bytes" where
  "new_Uint8Array n = replicate n 0"

definition relative_index :: "nat \<Rightarrow> int \<Rightarrow> nat" where
  \<comment> \<open>how \<open>slice\<close> and \<open>subarray\<close> read a bound: negative counts from the end, then clamp\<close>
  "relative_index len i = (if i < 0 then nat (max (int len + i) 0) else min (nat i) len)"

definition slice :: "'a list \<Rightarrow> int \<Rightarrow> int option \<Rightarrow> 'a list" where
  \<comment> \<open>\<open>buffer.slice( start, end )\<close> and \<open>buffer.subarray( start, end )\<close>;
      \<open>None\<close> is an omitted \<open>end\<close>\<close>
  "slice buffer start end =
     (let len = length buffer;
          k = relative_index len start;
          final = (case end of None \<Rightarrow> len | Some e \<Rightarrow> relative_index len e)
      in take (final - k) (drop k buffer))"

definition buffer_set :: "bytes \<Rightarrow> int list \<Rightarrow> nat \<Rightarrow> error + bytes" where
  \<comment> \<open>\<open>buffer.set( source, offset )\<close>: raises when the source does not fit\<close>
  "buffer_set buffer source offset =
     (if length source + offset > length buffer then Inl RangeError
      else Inr (take offset buffer @ map toUint8 source
                @ drop (offset + length source) buffer))"

subsection \<open>JSON values\<close>

definition hex_digit :: "nat \<Rightarrow> 16 word" where
  "hex_digit d = (if d < 10 then of_nat (48 + d) else of_nat (87 + d))"

datatype json =
    JNull
  | JBool bool
  | JNumber int
  | JString jsstring
  | JArray "json list"
  | JObject "(jsstring \<times> json) list"   \<comment> \<open>the members in order, each name once\<close>

definition is_high_surrogate :: "16 word \<Rightarrow> bool" where
  "is_high_surrogate c \<longleftrightarrow> 0xD800 \<le> c \<and> c \<le> 0xDBFF"

definition is_low_surrogate :: "16 word \<Rightarrow> bool" where
  "is_low_surrogate c \<longleftrightarrow> 0xDC00 \<le> c \<and> c \<le> 0xDFFF"

text \<open>
  \<open>JSON.stringify\<close> without indentation, on values built from text, integers,
  booleans, \<open>null\<close>, arrays and objects. An integer is printed in decimal, which
  is what the platform prints for an integer of magnitude below 10^21; from 10^21 on the
  platform prints exponent notation, which \<open>Number_toString\<close> does not follow (the
  numbers the session prints are sequence numbers and terminal sizes). In a string the
  quotation mark, the backslash and the
  control characters are escaped, and a surrogate that is not part of a pair is written
  as a \<open>\u\<close> escape.
\<close>

fun decimal :: "nat \<Rightarrow> jsstring" where
  "decimal n = (if n < 10 then [of_nat (48 + n)] else decimal (n div 10) @ [of_nat (48 + n mod 10)])"

definition Number_toString :: "int \<Rightarrow> jsstring" where
  "Number_toString n = (if n < 0 then js ''-'' @ decimal (nat (- n)) else decimal (nat n))"

definition unicode_escape :: "16 word \<Rightarrow> jsstring" where
  "unicode_escape c =
     [0x5C, 0x75, hex_digit (unat c div 4096), hex_digit (unat c div 256 mod 16),
      hex_digit (unat c div 16 mod 16), hex_digit (unat c mod 16)]"

definition escape_unit :: "16 word \<Rightarrow> jsstring" where
  "escape_unit c =
     (if c = 0x08 then [0x5C, 0x62]
      else if c = 0x09 then [0x5C, 0x74]
      else if c = 0x0A then [0x5C, 0x6E]
      else if c = 0x0C then [0x5C, 0x66]
      else if c = 0x0D then [0x5C, 0x72]
      else if c = 0x22 then [0x5C, 0x22]
      else if c = 0x5C then [0x5C, 0x5C]
      else if c < 0x20 \<or> is_high_surrogate c \<or> is_low_surrogate c then unicode_escape c
      else [c])"

fun escape_units :: "jsstring \<Rightarrow> jsstring" where
  "escape_units [] = []"
| "escape_units [c] = escape_unit c"
| "escape_units (c # d # rest) =
     (if is_high_surrogate c \<and> is_low_surrogate d then c # d # escape_units rest
      else escape_unit c @ escape_units (d # rest))"

definition QuoteJSONString :: "jsstring \<Rightarrow> jsstring" where
  "QuoteJSONString s = [0x22] @ escape_units s @ [0x22]"

fun JSON_stringify :: "json \<Rightarrow> jsstring"
  and stringify_elements :: "json list \<Rightarrow> jsstring"
  and stringify_members :: "(jsstring \<times> json) list \<Rightarrow> jsstring" where
  "JSON_stringify JNull = js ''null''"
| "JSON_stringify (JBool b) = (if b then js ''true'' else js ''false'')"
| "JSON_stringify (JNumber n) = Number_toString n"
| "JSON_stringify (JString s) = QuoteJSONString s"
| "JSON_stringify (JArray xs) = js ''['' @ stringify_elements xs @ js '']''"
| "JSON_stringify (JObject ms) = js ''{'' @ stringify_members ms @ js ''}''"
| "stringify_elements [] = []"
| "stringify_elements [x] = JSON_stringify x"
| "stringify_elements (x # y # rest) = JSON_stringify x @ js '','' @ stringify_elements (y # rest)"
| "stringify_members [] = []"
| "stringify_members [(k, v)] = QuoteJSONString k @ js '':'' @ JSON_stringify v"
| "stringify_members ((k, v) # m # rest) =
     QuoteJSONString k @ js '':'' @ JSON_stringify v @ js '','' @ stringify_members (m # rest)"

section \<open>Message and payload type vocabulary\<close>

definition InteractiveShellMessage :: jsstring where
  "InteractiveShellMessage = js ''interactive_shell''"
definition TaskReplyMessage :: jsstring where
  "TaskReplyMessage = js ''agent_task_reply''"
definition TaskCompleteMessage :: jsstring where
  "TaskCompleteMessage = js ''agent_task_complete''"
definition AcknowledgeMessage :: jsstring where
  "AcknowledgeMessage = js ''acknowledge''"
definition AgentSessionState :: jsstring where
  "AgentSessionState = js ''agent_session_state''"
definition ChannelClosedMessage :: jsstring where
  "ChannelClosedMessage = js ''channel_closed''"
definition OutputStreamDataMessage :: jsstring where
  "OutputStreamDataMessage = js ''output_stream_data''"
definition InputStreamDataMessage :: jsstring where
  "InputStreamDataMessage = js ''input_stream_data''"
definition PausePublicationMessage :: jsstring where
  "PausePublicationMessage = js ''pause_publication''"
definition StartPublicationMessage :: jsstring where
  "StartPublicationMessage = js ''start_publication''"

definition PayloadType_Output :: int where "PayloadType_Output = 1"
definition PayloadType_Error :: int where "PayloadType_Error = 2"
definition PayloadType_Size :: int where "PayloadType_Size = 3"
definition PayloadType_Parameter :: int where "PayloadType_Parameter = 4"
definition PayloadType_HandshakeRequest :: int where "PayloadType_HandshakeRequest = 5"
definition PayloadType_HandshakeResponse :: int where "PayloadType_HandshakeResponse = 6"
definition PayloadType_HandshakeComplete :: int where "PayloadType_HandshakeComplete = 7"
definition PayloadType_EncChallengeRequest :: int where "PayloadType_EncChallengeRequest = 8"
definition PayloadType_EncChallengeResponse :: int where "PayloadType_EncChallengeResponse = 9"
definition PayloadType_Flag :: int where "PayloadType_Flag = 10"

section \<open>Agent messages\<close>

record EncodeableAgentMessage =
  MessageType :: jsstring
  SequenceNumber :: int
  PayloadType :: int
  Payload :: jsstring

record AgentMessage = EncodeableAgentMessage +
  MessageId :: jsstring

subsection \<open>Field widths and offsets\<close>

definition Length_HL :: nat where "Length_HL = 4"
definition Length_MessageType :: nat where "Length_MessageType = 32"
definition Length_SchemaVersion :: nat where "Length_SchemaVersion = 4"
definition Length_CreatedDate :: nat where "Length_CreatedDate = 8"
definition Length_SequenceNumber :: nat where "Length_SequenceNumber = 8"
definition Length_Flags :: nat where "Length_Flags = 8"
definition Length_MessageId :: nat where "Length_MessageId = 16"
definition Length_PayloadDigest :: nat where "Length_PayloadDigest = 32"
definition Length_PayloadType :: nat where "Length_PayloadType = 4"
definition Length_PayloadLength :: nat where "Length_PayloadLength = 4"

definition Offset_HL :: nat where "Offset_HL = 0"
definition Offset_MessageType :: nat where
  "Offset_MessageType = Offset_HL + Length_HL"
definition Offset_SchemaVersion :: nat where
  "Offset_SchemaVersion = Offset_MessageType + Length_MessageType"
definition Offset_CreatedDate :: nat where
  "Offset_CreatedDate = Offset_SchemaVersion + Length_SchemaVersion"
definition Offset_SequenceNumber :: nat where
  "Offset_SequenceNumber = Offset_CreatedDate + Length_CreatedDate"
definition Offset_Flags :: nat where
  "Offset_Flags = Offset_SequenceNumber + Length_SequenceNumber"
definition Offset_MessageId :: nat where
  "Offset_MessageId = Offset_Flags + Length_Flags"
definition Offset_PayloadDigest :: nat where
  "Offset_PayloadDigest = Offset_MessageId + Length_MessageId"
definition Offset_PayloadType :: nat where
  "Offset_PayloadType = Offset_PayloadDigest + Length_PayloadDigest"
definition Offset_PayloadLength :: nat where
  "Offset_PayloadLength = Offset_PayloadType + Length_PayloadType"
definition Offset_Payload :: nat where
  "Offset_Payload = Offset_PayloadLength + Length_PayloadLength"

section \<open>Text decoding\<close>

text \<open>
  \<open>new TextDecoder( 'utf8' ).decode( bytes )\<close> is the platform's UTF-8 decoder in its
  default mode: malformed input yields U+FFFD instead of an exception, and one leading
  byte order mark is dropped. The decoder is a state machine over the bytes; a byte that
  cannot continue a sequence ends it with U+FFFD and is then read again as a first byte.
\<close>

record utf8_state =
  code_point :: nat
  bytes_seen :: nat
  bytes_needed :: nat
  lower_boundary :: nat
  upper_boundary :: nat

definition utf8_initial :: utf8_state where
  "utf8_initial = \<lparr>code_point = 0, bytes_seen = 0, bytes_needed = 0,
                    lower_boundary = 0x80, upper_boundary = 0xBF\<rparr>"

definition utf8_lead :: "nat \<Rightarrow> nat list \<times> utf8_state" where
  \<comment> \<open>a byte read when no sequence is open: the code points emitted and the next state\<close>
  "utf8_lead b =
     (if b \<le> 0x7F then ([b], utf8_initial)
      else if 0xC2 \<le> b \<and> b \<le> 0xDF then
        ([], utf8_initial\<lparr>bytes_needed := 1, code_point := b mod 0x20\<rparr>)
      else if 0xE0 \<le> b \<and> b \<le> 0xEF then
        ([], utf8_initial\<lparr>bytes_needed := 2, code_point := b mod 0x10,
               lower_boundary := (if b = 0xE0 then 0xA0 else 0x80),
               upper_boundary := (if b = 0xED then 0x9F else 0xBF)\<rparr>)
      else if 0xF0 \<le> b \<and> b \<le> 0xF4 then
        ([], utf8_initial\<lparr>bytes_needed := 3, code_point := b mod 0x08,
               lower_boundary := (if b = 0xF0 then 0x90 else 0x80),
               upper_boundary := (if b = 0xF4 then 0x8F else 0xBF)\<rparr>)
      else ([0xFFFD], utf8_initial))"

definition utf8_handler :: "utf8_state \<Rightarrow> nat \<Rightarrow> nat list \<times> utf8_state" where
  "utf8_handler st b =
     (if bytes_needed st = 0 then utf8_lead b
      else if b < lower_boundary st \<or> upper_boundary st < b then
        (0xFFFD # fst (utf8_lead b), snd (utf8_lead b))
      else
        (let cp = code_point st * 0x40 + b mod 0x40;
             seen = bytes_seen st + 1
         in if seen \<noteq> bytes_needed st
            then ([], st\<lparr>code_point := cp, bytes_seen := seen,
                          lower_boundary := 0x80, upper_boundary := 0xBF\<rparr>)
            else ([cp], utf8_initial)))"

fun utf8_run :: "utf8_state \<Rightarrow> nat list \<Rightarrow> nat list" where
  "utf8_run st [] = (if bytes_needed st \<noteq> 0 then [0xFFFD] else [])"
| "utf8_run st (b # bs) = fst (utf8_handler st b) @ utf8_run (snd (utf8_handler st b)) bs"

definition strip_bom :: "nat list \<Rightarrow> nat list" where
  "strip_bom cps = (case cps of [] \<Rightarrow> [] | c # cs \<Rightarrow> if c = 0xFEFF then cs else c # cs)"

definition utf16_units :: "nat \<Rightarrow> jsstring" where
  \<comment> \<open>a code point as one code unit or a surrogate pair\<close>
  "utf16_units cp =
     (if cp < 0x10000 then [of_nat cp]
      else [of_nat (0xD800 + (cp - 0x10000) div 0x400),
            of_nat (0xDC00 + (cp - 0x10000) mod 0x400)])"

definition TextDecoder_decode :: "bytes \<Rightarrow> jsstring" where
  "TextDecoder_decode buffer =
     concat (map utf16_units (strip_bom (utf8_run utf8_initial (map unat buffer))))"

definition is_whitespace :: "16 word \<Rightarrow> bool" where
  \<comment> \<open>the white space and line terminator code units that \<open>trimEnd\<close> removes\<close>
  "is_whitespace c \<longleftrightarrow>
     c \<in> {0x0009, 0x000A, 0x000B, 0x000C, 0x000D, 0x0020, 0x00A0, 0x1680,
          0x2000, 0x2001, 0x2002, 0x2003, 0x2004, 0x2005, 0x2006, 0x2007, 0x2008,
          0x2009, 0x200A, 0x2028, 0x2029, 0x202F, 0x205F, 0x3000, 0xFEFF}"

definition trimEnd :: "jsstring \<Rightarrow> jsstring" where
  "trimEnd s = rev (dropWhile is_whitespace (rev s))"

definition substr :: "jsstring \<Rightarrow> nat \<Rightarrow> nat option \<Rightarrow> jsstring" where
  \<comment> \<open>\<open>s.substr( start, length )\<close> for a start that is not negative\<close>
  "substr s start len =
     (case len of None \<Rightarrow> drop start s | Some n \<Rightarrow> take n (drop start s))"

fun join :: "jsstring \<Rightarrow> jsstring list \<Rightarrow> jsstring" where
  "join sep [] = []"
| "join sep [x] = x"
| "join sep (x # y # ys) = x @ sep @ join sep (y # ys)"

definition padStart :: "nat \<Rightarrow> 16 word \<Rightarrow> jsstring \<Rightarrow> jsstring" where
  "padStart n c s = replicate (n - length s) c @ s"

definition byte_toString16 :: "byte \<Rightarrow> jsstring" where
  \<comment> \<open>\<open>byte.toString( 16 )\<close> for a value below 256\<close>
  "byte_toString16 b =
     (if unat b < 16 then [hex_digit (unat b)]
      else [hex_digit (unat b div 16), hex_digit (unat b mod 16)])"

section \<open>The frame codec\<close>

definition decodeText :: "bytes \<Rightarrow> int \<Rightarrow> int option \<Rightarrow> jsstring" where
  "decodeText buffer start end =
     (let decoded = TextDecoder_decode (slice buffer start end)
      in filter (\<lambda>c. c \<noteq> 0) decoded)"

fun putString_loop :: "bytes \<Rightarrow> nat \<Rightarrow> jsstring \<Rightarrow> nat list \<Rightarrow> error + bytes" where
  "putString_loop buffer start val [] = Inr buffer"
| "putString_loop buffer start val (i # rest) =
     (let byte = (if i \<ge> length val then 32 else uint (val ! i))
      in and_then (buffer_set buffer [byte] (start + i))
           (\<lambda>buffer'. putString_loop buffer' start val rest))"

definition putString :: "bytes \<Rightarrow> nat \<Rightarrow> nat \<Rightarrow> jsstring \<Rightarrow> error + bytes" where
  "putString buffer start end val =
     (let len = int end - int start
      in if len < int (length val) then Inl (Error ''String is too long to encode'')
         else putString_loop buffer start val [0..<nat len])"

definition decodeInt :: "bytes \<Rightarrow> nat \<Rightarrow> nat \<Rightarrow> int" where
  "decodeInt buffer start end =
     (let bytes = slice buffer (int start) (Some (int end))
      in foldl (\<lambda>acc byte. js_shl acc 8 + uint byte) 0 bytes)"

definition putInt :: "bytes \<Rightarrow> nat \<Rightarrow> int \<Rightarrow> error + bytes" where
  "putInt buffer pos v =
     (let bytes = [js_and (js_sar v 24) 0xff,
                   js_and (js_sar v 16) 0xff,
                   js_and (js_sar v 8) 0xff,
                   js_and v 0xff]
      in buffer_set buffer bytes pos)"

definition putLong :: "bytes \<Rightarrow> nat \<Rightarrow> int \<Rightarrow> error + bytes" where
  "putLong buffer pos v = putInt buffer (pos + 4) v"

definition longToHex :: "bytes \<Rightarrow> jsstring" where
  "longToHex buffer =
     foldl (\<lambda>str byte. str @ padStart 2 (of_char CHR ''0'') (byte_toString16 byte)) [] buffer"

definition decodeUuid :: "bytes \<Rightarrow> nat \<Rightarrow> nat \<Rightarrow> jsstring" where
  "decodeUuid buffer start end =
     (let bytes = slice buffer (int start) (Some (int end));
          leastSignificant = slice bytes 0 (Some 8);
          mostSignificant = slice bytes 8 (Some 16);
          raw = longToHex mostSignificant @ longToHex leastSignificant
      in join (js ''-'')
           [substr raw 0 (Some 8), substr raw 8 (Some 4), substr raw 12 (Some 4),
            substr raw 16 (Some 4), substr raw 20 None])"

definition decode :: "bytes \<Rightarrow> AgentMessage" where
  "decode buffer =
     (let headerLength = decodeInt buffer Offset_HL (Offset_HL + Length_HL)
      in \<lparr>MessageType =
            trimEnd (decodeText buffer (int Offset_MessageType)
                       (Some (int (Offset_MessageType + Length_MessageType)))),
          SequenceNumber =
            decodeInt buffer Offset_SequenceNumber (Offset_SequenceNumber + Length_SequenceNumber),
          PayloadType =
            decodeInt buffer Offset_PayloadType (Offset_PayloadType + Length_PayloadType),
          Payload = decodeText buffer (headerLength + int Length_PayloadLength) None,
          MessageId =
            decodeUuid buffer Offset_MessageId (Offset_MessageId + Length_MessageId)\<rparr>)"

text \<open>
  \<open>encode\<close> reads three things from outside the repository: the clock
  (\<open>Date.now()\<close>), the 16 bytes of a freshly generated version-4 UUID, which the
  generator stores at consecutive indices of the buffer, and the SHA-256 digest of the
  payload as an array of 32 numbers. They are parameters here.
\<close>

definition uuidv4 :: "bytes \<Rightarrow> bytes \<Rightarrow> nat \<Rightarrow> bytes" where
  \<comment> \<open>\<open>uuidv4( {}, buf, offset )\<close>: \<open>buf[ offset + i ] = rnds[ i ]\<close> for the 16 bytes\<close>
  "uuidv4 rnds buf offset =
     fold (\<lambda>i b. if offset + i < length b then b[offset + i := rnds ! i] else b) [0..<16] buf"

definition encode ::
  "int \<Rightarrow> bytes \<Rightarrow> (jsstring \<Rightarrow> int list) \<Rightarrow> EncodeableAgentMessage \<Rightarrow> error + bytes" where
  "encode now rnds sha256 message =
     (let payloadLength = length (Payload message);
          totalLength = Offset_PayloadLength + payloadLength + 4;
          data = new_Uint8Array totalLength
      in and_then (putInt data Offset_HL (int Offset_PayloadLength)) (\<lambda>data.
         and_then (putString data Offset_MessageType (Offset_MessageType + Length_MessageType)
                     (MessageType message)) (\<lambda>data.
         and_then (putInt data Offset_SchemaVersion 1) (\<lambda>data.
         and_then (putLong data Offset_CreatedDate now) (\<lambda>data.
         and_then (putLong data Offset_SequenceNumber (SequenceNumber message)) (\<lambda>data.
         and_then (putLong data Offset_Flags (if SequenceNumber message > 0 then 0 else 1))
           (\<lambda>data.
         and_then (Inr (uuidv4 rnds data Offset_MessageId)) (\<lambda>data.
         and_then (buffer_set data (sha256 (Payload message)) Offset_PayloadDigest) (\<lambda>data.
         and_then (putInt data Offset_PayloadType (PayloadType message)) (\<lambda>data.
         and_then (putInt data Offset_PayloadLength (int payloadLength)) (\<lambda>data.
         putString data Offset_Payload totalLength (Payload message))))))))))))"

section \<open>The session\<close>

text \<open>
  The class \<open>AWSSSMSession\<close> with flow control (the first listing of the source
  file). Its fields are a record; each method and each transport callback takes the
  session and returns the updated one, or the exception it raises.

  What the session does to the outside is recorded in order in \<open>trace\<close>: frames and
  text handed to \<open>webSocket.send\<close>, calls of \<open>emit\<close> followed by the registered
  callbacks they invoke, and console messages. The web socket itself, the registered
  callbacks, \<open>JSON.parse\<close> and the digest function are not part of the repository:
  the socket's \<open>readyState\<close> is a field that the transport sets, callbacks are named
  by a number, and the two functions are parameters, the fields of \<open>runtime\<close>.
\<close>

datatype event = Ev_output | Ev_connect | Ev_disconnect | Ev_pause | Ev_resume

datatype effect =
    Send bytes                \<comment> \<open>\<open>webSocket.send\<close> of an encoded frame\<close>
  | SendText jsstring         \<comment> \<open>\<open>webSocket.send\<close> of a string\<close>
  | Emit event jsstring       \<comment> \<open>a call of \<open>emit\<close>\<close>
  | Callback nat jsstring     \<comment> \<open>a registered callback invoked with the data\<close>
  | ConsoleWarn string
  | ConsoleError jsstring
  | Close                     \<comment> \<open>\<open>webSocket.close()\<close>\<close>

record runtime =
  sha256_digest :: "jsstring \<Rightarrow> int list"
  JSON_parse :: "jsstring \<Rightarrow> error + json"

record session =
  streamUrl :: jsstring
  sessionId :: jsstring
  tokenValue :: jsstring
  readyState :: nat
  outgoingSequenceNumber :: int
  outputMap :: "jsstring \<rightharpoonup> jsstring"
  connectionClosed :: bool
  connectionTerminated :: bool
  lastAcknowledgedSequenceNumber :: "int option"
  handlers :: "(event \<times> nat) list"
  paused :: bool
  trace :: "effect list"

definition new_session :: "jsstring \<Rightarrow> jsstring \<Rightarrow> jsstring \<Rightarrow> session" where
  \<comment> \<open>the constructor; a new web socket is connecting (ready state 0)\<close>
  "new_session url sid token =
     \<lparr>streamUrl = url, sessionId = sid, tokenValue = token, readyState = 0,
      outgoingSequenceNumber = 0, outputMap = Map.empty,
      connectionClosed = False, connectionTerminated = False,
      lastAcknowledgedSequenceNumber = None, handlers = [], paused = False, trace = []\<rparr>"

definition webSocket_send :: "session \<Rightarrow> effect \<Rightarrow> session" where
  "webSocket_send s d = s\<lparr>trace := trace s @ [d]\<rparr>"

definition on :: "session \<Rightarrow> event \<Rightarrow> nat \<Rightarrow> session" where
  "on s eventName callback = s\<lparr>handlers := handlers s @ [(eventName, callback)]\<rparr>"

definition emit :: "session \<Rightarrow> event \<Rightarrow> jsstring \<Rightarrow> session" where
  "emit s eventName data =
     s\<lparr>trace := trace s @ Emit eventName data
          # map (\<lambda>h. Callback (snd h) data) (filter (\<lambda>h. fst h = eventName) (handlers s))\<rparr>"

definition send :: "session \<Rightarrow> effect \<Rightarrow> session" where
  "send s message =
     (if readyState s \<noteq> 1 then s\<lparr>trace := trace s @ [ConsoleWarn ''WebSocket is not yet ready.'']\<rparr>
      else webSocket_send (s\<lparr>outgoingSequenceNumber := outgoingSequenceNumber s + 1\<rparr>) message)"

text \<open>The method \<open>write\<close> is named \<open>write_text\<close> here.\<close>

definition write_text :: "runtime \<Rightarrow> int \<Rightarrow> bytes \<Rightarrow> session \<Rightarrow> jsstring \<Rightarrow> error + session" where
  "write_text rt now rnds s message =
     (let data = \<lparr>MessageType = InputStreamDataMessage,
                  SequenceNumber = outgoingSequenceNumber s,
                  PayloadType = PayloadType_Output,
                  Payload = message\<rparr>
      in and_then (encode now rnds (sha256_digest rt) data) (\<lambda>frame. Inr (send s (Send frame))))"

definition ping :: "session \<Rightarrow> session" where
  "ping s = webSocket_send s (SendText (js ''ping''))"

definition setSize :: "runtime \<Rightarrow> int \<Rightarrow> bytes \<Rightarrow> session \<Rightarrow> int \<Rightarrow> int \<Rightarrow> error + session" where
  "setSize rt now rnds s cols rows =
     (let message = \<lparr>MessageType = InputStreamDataMessage,
                     SequenceNumber = outgoingSequenceNumber s,
                     PayloadType = PayloadType_Size,
                     Payload = JSON_stringify
                       (JObject [(js ''cols'', JNumber cols), (js ''rows'', JNumber rows)])\<rparr>
      in and_then (encode now rnds (sha256_digest rt) message) (\<lambda>frame. Inr (send s (Send frame))))"

definition close :: "session \<Rightarrow> session" where
  "close s = s\<lparr>trace := trace s @ [Close]\<rparr>"

definition acknowledgement ::
  "session \<Rightarrow> jsstring \<Rightarrow> jsstring \<Rightarrow> int \<Rightarrow> EncodeableAgentMessage" where
  \<comment> \<open>the message built by \<open>acknowledgeMessage\<close>\<close>
  "acknowledgement s messageType messageId messageSequenceNumber =
     \<lparr>MessageType = AcknowledgeMessage,
      SequenceNumber = outgoingSequenceNumber s,
      PayloadType = PayloadType_Output,
      Payload = JSON_stringify
        (JObject [(js ''AcknowledgedMessageType'', JString messageType),
                  (js ''AcknowledgedMessageId'', JString messageId),
                  (js ''AcknowledgedMessageSequenceNumber'', JNumber messageSequenceNumber),
                  (js ''IsSequentialMessage'', JBool True)])\<rparr>"

definition acknowledgeMessage ::
  "runtime \<Rightarrow> int \<Rightarrow> bytes \<Rightarrow> session \<Rightarrow> jsstring \<Rightarrow> jsstring \<Rightarrow> int \<Rightarrow> error + session" where
  "acknowledgeMessage rt now rnds s messageType messageId messageSequenceNumber =
     (let message = acknowledgement s messageType messageId messageSequenceNumber
      in and_then (encode now rnds (sha256_digest rt) message)
           (\<lambda>frame. Inr (webSocket_send s (Send frame))))"

subsection \<open>Reading a parsed control payload\<close>

definition member :: "json \<Rightarrow> jsstring \<Rightarrow> error + json option" where
  \<comment> \<open>\<open>value.name\<close> for a name that only an object's own members can have:
      \<open>None\<close> is \<open>undefined\<close>, and reading a member of \<open>null\<close> raises\<close>
  "member v name =
     (case v of JNull \<Rightarrow> Inl TypeError
      | JObject members \<Rightarrow> Inr (map_of members name)
      | _ \<Rightarrow> Inr None)"

definition acknowledge_case :: "runtime \<Rightarrow> session \<Rightarrow> AgentMessage \<Rightarrow> error + session" where
  \<comment> \<open>a member that is present but not a number is outside the field's declared type
      \<open>number | undefined\<close>\<close>
  "acknowledge_case rt s message =
     (if Payload message \<noteq> [] then
        and_then (JSON_parse rt (Payload message)) (\<lambda>payloadData.
        and_then (member payloadData (js ''AcknowledgedMessageSequenceNumber'')) (\<lambda>acked.
          case acked of
            None \<Rightarrow> Inr s
          | Some (JNumber n) \<Rightarrow>
              if lastAcknowledgedSequenceNumber s = None
                 \<or> the (lastAcknowledgedSequenceNumber s) < n
              then Inr (s\<lparr>lastAcknowledgedSequenceNumber := Some n\<rparr>)
              else Inr s
          | Some _ \<Rightarrow> Inl Untyped))
      else Inr s)"

definition CRLF :: jsstring where
  "CRLF = [0x0D, 0x0A]"

definition channel_closed_output :: "session \<Rightarrow> json option \<Rightarrow> error + session" where
  \<comment> \<open>\<open>if ( Output.length > 0 ) emit( 'output', Output + '\r\n' )\<close>: text is emitted when
      it is not empty; numbers and booleans have no length; \<open>undefined\<close> and \<open>null\<close>
      raise; a non-empty array or an object with a member \<open>length\<close> is not modelled\<close>
  "channel_closed_output s output =
     (case output of
        None \<Rightarrow> Inl TypeError
      | Some JNull \<Rightarrow> Inl TypeError
      | Some (JString text) \<Rightarrow>
          Inr (if length text > 0 then emit s Ev_output (text @ CRLF) else s)
      | Some (JNumber n) \<Rightarrow> Inr s
      | Some (JBool b) \<Rightarrow> Inr s
      | Some (JArray xs) \<Rightarrow> if xs = [] then Inr s else Inl Untyped
      | Some (JObject members) \<Rightarrow>
          if map_of members (js ''length'') = None then Inr s else Inl Untyped)"

definition channel_closed_case :: "runtime \<Rightarrow> session \<Rightarrow> AgentMessage \<Rightarrow> error + session" where
  "channel_closed_case rt s message =
     and_then
       (if Payload message \<noteq> [] then
          and_then (JSON_parse rt (Payload message)) (\<lambda>payloadData.
          and_then (member payloadData (js ''Output'')) (\<lambda>output.
            channel_closed_output s output))
        else Inr s)
       (\<lambda>s. Inr (s\<lparr>connectionTerminated := True\<rparr>))"

subsection \<open>The transport callbacks\<close>

definition handle_message ::
  "runtime \<Rightarrow> int \<Rightarrow> bytes \<Rightarrow> session \<Rightarrow> AgentMessage \<Rightarrow> error + session" where
  \<comment> \<open>the \<open>switch\<close> of \<open>onmessage\<close> on the decoded message\<close>
  "handle_message rt now rnds s message =
     (if MessageType message = js ''output_stream_data'' then
        and_then (acknowledgeMessage rt now rnds s (MessageType message) (MessageId message)
                    (SequenceNumber message)) (\<lambda>s.
          let text = Payload message;
              s = (if outputMap s (MessageId message) = None then emit s Ev_output text else s)
          in Inr (s\<lparr>outputMap := (outputMap s)(MessageId message \<mapsto> text)\<rparr>))
      else if MessageType message = js ''start_publication'' then
        (let s = (case lastAcknowledgedSequenceNumber s of
                    Some acked \<Rightarrow> s\<lparr>outgoingSequenceNumber := acked\<rparr>
                  | None \<Rightarrow> s\<lparr>outgoingSequenceNumber := 0\<rparr>);
             s = s\<lparr>paused := False\<rparr>
         in Inr (emit s Ev_resume []))
      else if MessageType message = js ''pause_publication'' then
        (let s = s\<lparr>paused := True\<rparr> in Inr (emit s Ev_pause []))
      else if MessageType message = js ''acknowledge'' then acknowledge_case rt s message
      else if MessageType message = js ''input_stream_data'' then Inr s
      else if MessageType message = js ''channel_closed'' then channel_closed_case rt s message
      else Inr (s\<lparr>trace := trace s
                  @ [ConsoleError (js ''Unhandled message type '' @ MessageType message
                                   @ js ''.'')]\<rparr>))"

definition onmessage :: "runtime \<Rightarrow> int \<Rightarrow> bytes \<Rightarrow> session \<Rightarrow> bytes \<Rightarrow> error + session" where
  "onmessage rt now rnds s data = handle_message rt now rnds s (decode data)"

fun handle_messages :: "runtime \<Rightarrow> session \<Rightarrow> (int \<times> bytes \<times> AgentMessage) list \<Rightarrow> error + session"
  where
  \<comment> \<open>messages handled one after the other, each with the clock reading and the UUID
      bytes that are current when it arrives\<close>
  "handle_messages rt s [] = Inr s"
| "handle_messages rt s ((now, rnds, message) # rest) =
     and_then (handle_message rt now rnds s message) (\<lambda>s. handle_messages rt s rest)"

definition onopen :: "jsstring \<Rightarrow> session \<Rightarrow> session" where
  \<comment> \<open>\<open>requestId\<close> is the text of a freshly generated UUID\<close>
  "onopen requestId s =
     emit (webSocket_send s
             (SendText (JSON_stringify
                (JObject [(js ''MessageSchemaVersion'', JString (js ''1.0'')),
                          (js ''RequestId'', JString requestId),
                          (js ''TokenValue'', JString (tokenValue s))]))))
          Ev_connect []"

definition onclose :: "session \<Rightarrow> jsstring \<Rightarrow> session" where
  "onclose s reason = emit (s\<lparr>connectionClosed := True\<rparr>) Ev_disconnect reason"

subsection \<open>Reading the trace\<close>

fun emitted :: "effect list \<Rightarrow> (event \<times> jsstring) list" where
  "emitted [] = []"
| "emitted (Emit e d # rest) = (e, d) # emitted rest"
| "emitted (x # rest) = emitted rest"

fun sent :: "effect list \<Rightarrow> bytes list" where
  "sent [] = []"
| "sent (Send frame # rest) = frame # sent rest"
| "sent (x # rest) = sent rest"

definition output_seen :: "jsstring \<Rightarrow> session \<Rightarrow> jsstring option" where
  \<comment> \<open>\<open>outputMap.get( messageId )\<close>\<close>
  "output_seen messageId s = outputMap s messageId"

section \<open>Notions used to state the claims\<close>

text \<open>
  Text without NUL whose code units are all below 128: the strings for which a code
  unit, a character and a UTF-8 byte are the same thing.
\<close>

definition plain_ascii :: "jsstring \<Rightarrow> bool" where
  "plain_ascii s \<longleftrightarrow> list_all (\<lambda>c. 0 < c \<and> c < 0x80) s"


text \<open>
  The canonical text of a 16-byte UUID: the bytes in order, two lower-case hexadecimal
  digits each, in groups of 4, 2, 2, 2 and 6 bytes separated by hyphens. A string is
  syntactically a UUID when it has that 8-4-4-4-12 shape.
\<close>

definition hex_pair :: "byte \<Rightarrow> jsstring" where
  "hex_pair b = [hex_digit (unat b div 16), hex_digit (unat b mod 16)]"

definition uuid_string :: "bytes \<Rightarrow> jsstring" where
  "uuid_string u =
     concat (map hex_pair (take 4 u)) @ js ''-'' @
     concat (map hex_pair (take 2 (drop 4 u))) @ js ''-'' @
     concat (map hex_pair (take 2 (drop 6 u))) @ js ''-'' @
     concat (map hex_pair (take 2 (drop 8 u))) @ js ''-'' @
     concat (map hex_pair (drop 10 u))"

definition is_hex_digit :: "16 word \<Rightarrow> bool" where
  "is_hex_digit c \<longleftrightarrow> (0x30 \<le> c \<and> c \<le> 0x39) \<or> (0x61 \<le> c \<and> c \<le> 0x66) \<or> (0x41 \<le> c \<and> c \<le> 0x46)"

definition is_uuid_string :: "jsstring \<Rightarrow> bool" where
  "is_uuid_string s \<longleftrightarrow>
     length s = 36 \<and>
     list_all is_hex_digit (take 8 s) \<and> take 1 (drop 8 s) = js ''-'' \<and>
     list_all is_hex_digit (take 4 (drop 9 s)) \<and> take 1 (drop 13 s) = js ''-'' \<and>
     list_all is_hex_digit (take 4 (drop 14 s)) \<and> take 1 (drop 18 s) = js ''-'' \<and>
     list_all is_hex_digit (take 4 (drop 19 s)) \<and> take 1 (drop 23 s) = js ''-'' \<and>
     list_all is_hex_digit (drop 24 s)"


text \<open>
  The UTF-8 encoding of a string, as the specification uses the term: the code units are
  read as code points (a surrogate pair is one code point, a lone surrogate is U+FFFD),
  and each code point takes one to four bytes.
\<close>

definition scalar_value :: "16 word \<Rightarrow> nat" where
  "scalar_value c = (if is_high_surrogate c \<or> is_low_surrogate c then 0xFFFD else unat c)"

fun utf16_code_points :: "jsstring \<Rightarrow> nat list" where
  "utf16_code_points [] = []"
| "utf16_code_points [c] = [scalar_value c]"
| "utf16_code_points (c # d # rest) =
     (if is_high_surrogate c \<and> is_low_surrogate d
      then (0x10000 + (unat c - 0xD800) * 0x400 + (unat d - 0xDC00)) # utf16_code_points rest
      else scalar_value c # utf16_code_points (d # rest))"

definition utf8_of_code_point :: "nat \<Rightarrow> nat list" where
  "utf8_of_code_point cp =
     (if cp < 0x80 then [cp]
      else if cp < 0x800 then [0xC0 + cp div 0x40, 0x80 + cp mod 0x40]
      else if cp < 0x10000 then
        [0xE0 + cp div 0x1000, 0x80 + cp div 0x40 mod 0x40, 0x80 + cp mod 0x40]
      else [0xF0 + cp div 0x40000, 0x80 + cp div 0x1000 mod 0x40,
            0x80 + cp div 0x40 mod 0x40, 0x80 + cp mod 0x40])"

definition utf8_encode :: "jsstring \<Rightarrow> bytes" where
  "utf8_encode s = map of_nat (concat (map utf8_of_code_point (utf16_code_points s)))"

text \<open>Sample values for the inputs that come from outside: a UUID and a digest.\<close>

definition example_uuid :: bytes where
  "example_uuid = [0x00, 0x01, 0x02, 0x03, 0x04, 0x05, 0x06, 0x07,
                   0x08, 0x09, 0x0a, 0x0b, 0x0c, 0x0d, 0x0e, 0x0f]"

definition example_digest :: "jsstring \<Rightarrow> int list" where
  "example_digest p = replicate 32 0"

text \<open>
  A runtime for the examples: its \<open>JSON.parse\<close> knows the sample control payloads
  and rejects everything else. \<open>incoming\<close> is a decoded message of a given type and
  payload.
\<close>

definition example_JSON_parse :: "jsstring \<Rightarrow> error + json" where
  \<open>example_JSON_parse p =
     (if p = js ''{"AcknowledgedMessageSequenceNumber":5}''
        then Inr (JObject [(js ''AcknowledgedMessageSequenceNumber'', JNumber 5)])
      else if p = js ''{"AcknowledgedMessageSequenceNumber":3}''
        then Inr (JObject [(js ''AcknowledgedMessageSequenceNumber'', JNumber 3)])
      else if p = js ''{"AcknowledgedMessageSequenceNumber":8}''
        then Inr (JObject [(js ''AcknowledgedMessageSequenceNumber'', JNumber 8)])
      else if p = js ''{"Output":"done"}''
        then Inr (JObject [(js ''Output'', JString (js ''done''))])
      else if p = js ''{"Output":""}''
        then Inr (JObject [(js ''Output'', JString [])])
      else Inl SyntaxError)\<close>

definition example_runtime :: runtime where
  "example_runtime =
     \<lparr>sha256_digest = example_digest, JSON_parse = example_JSON_parse\<rparr>"

definition incoming :: "jsstring \<Rightarrow> jsstring \<Rightarrow> AgentMessage" where
  "incoming t p = \<lparr>MessageType = t, SequenceNumber = 0, PayloadType = PayloadType_Output,
                   Payload = p, MessageId = uuid_string example_uuid\<rparr>"

section \<open>Auxiliary notions for the proofs\<close>

definition overwrite :: "'a list \<Rightarrow> nat \<Rightarrow> 'a list \<Rightarrow> 'a list" where
  "overwrite buf pos src = take pos buf @ src @ drop (pos + length src) buf"

definition int32_bytes :: "int \<Rightarrow> bytes" where
  "int32_bytes v = map toUint8 [js_and (js_sar v 24) 0xff, js_and (js_sar v 16) 0xff,
                     js_and (js_sar v 8) 0xff, js_and v 0xff]"

definition string_byte :: "jsstring \<Rightarrow> nat \<Rightarrow> byte" where
  "string_byte val i = toUint8 (if i \<ge> length val then 32 else uint (val ! i))"

definition frame :: "int \<Rightarrow> bytes \<Rightarrow> int list \<Rightarrow> EncodeableAgentMessage \<Rightarrow> bytes" where
  "frame now rnds digest m =
     (let d0 = replicate (120 + length (Payload m)) 0;
          d1 = overwrite d0 0 (int32_bytes 116);
          d2 = overwrite d1 4 (map ucast (MessageType m)
                               @ replicate (32 - length (MessageType m)) 32);
          d3 = overwrite d2 36 (int32_bytes 1);
          d4 = overwrite d3 44 (int32_bytes now);
          d5 = overwrite d4 52 (int32_bytes (SequenceNumber m));
          d6 = overwrite d5 60 (int32_bytes (if SequenceNumber m > 0 then 0 else 1));
          d7 = overwrite d6 64 rnds;
          d8 = overwrite d7 80 (map toUint8 digest);
          d9 = overwrite d8 112 (int32_bytes (PayloadType m));
          d10 = overwrite d9 116 (int32_bytes (int (length (Payload m))))
      in overwrite d10 120 (map ucast (Payload m)))"

definition field :: "'a list \<Rightarrow> nat \<Rightarrow> nat \<Rightarrow> 'a list" where
  "field buf p n = take n (drop p buf)"

section \<open>Facts about the layout\<close>

lemmas Length_defs =
  Length_HL_def Length_MessageType_def Length_SchemaVersion_def Length_CreatedDate_def
  Length_SequenceNumber_def Length_Flags_def Length_MessageId_def Length_PayloadDigest_def
  Length_PayloadType_def Length_PayloadLength_def

lemmas Offset_defs =
  Offset_HL_def Offset_MessageType_def Offset_SchemaVersion_def Offset_CreatedDate_def
  Offset_SequenceNumber_def Offset_Flags_def Offset_MessageId_def Offset_PayloadDigest_def
  Offset_PayloadType_def Offset_PayloadLength_def Offset_Payload_def

section \<open>Typed-array writes\<close>

lemma and_then_Inr [simp]: "and_then (Inr x) f = f x"
  by (simp add: and_then_def)

lemma and_then_Inl [simp]: "and_then (Inl e) f = Inl e"
  by (simp add: and_then_def)

lemma length_overwrite [simp]:
  "pos + length src \<le> length buf \<Longrightarrow> length (overwrite buf pos src) = length buf"
  by (simp add: overwrite_def)

lemma buffer_set_eq:
  "buffer_set buf src off =
     (if length src + off > length buf then Inl RangeError
      else Inr (overwrite buf off (map toUint8 src)))"
  by (simp add: buffer_set_def overwrite_def)

lemma length_int32_bytes [simp]: "length (int32_bytes v) = 4"
  by (simp add: int32_bytes_def)

lemma putInt_eq:
  "putInt buf pos v =
     (if pos + 4 > length buf then Inl RangeError else Inr (overwrite buf pos (int32_bytes v)))"
  by (simp add: putInt_def buffer_set_eq int32_bytes_def Let_def add.commute)

lemma read_overwrite_same:
  "pos + length src \<le> length buf \<Longrightarrow> n = length src \<Longrightarrow>
   take n (drop pos (overwrite buf pos src)) = src"
  by (simp add: overwrite_def)

lemma read_overwrite_before:
  "pos \<le> length buf \<Longrightarrow> p + n \<le> pos \<Longrightarrow>
   take n (drop p (overwrite buf pos src)) = take n (drop p buf)"
proof -
  assume l: "pos \<le> length buf" and h: "p + n \<le> pos"
  have "take n (drop p (overwrite buf pos src)) = take n (drop p (take pos buf))"
    using h l by (simp add: overwrite_def)
  also have "\<dots> = take n (drop p buf)"
    using h l by (simp add: drop_take min_def)
  finally show ?thesis .
qed

lemma read_overwrite_after:
  "pos + length src \<le> length buf \<Longrightarrow> pos + length src \<le> p \<Longrightarrow>
   take n (drop p (overwrite buf pos src)) = take n (drop p buf)"
  by (simp add: overwrite_def)

lemma drop_overwrite_tail:
  "pos + length src = length buf \<Longrightarrow> drop pos (overwrite buf pos src) = src"
  by (simp add: overwrite_def)

lemma overwrite_adjacent:
  "pos + Suc (length xs) \<le> length buf \<Longrightarrow>
   overwrite (overwrite buf pos [x]) (Suc pos) xs = overwrite buf pos (x # xs)"
  by (simp add: overwrite_def take_Suc_conv_app_nth nth_append add.commute)

lemma overwrite_Nil [simp]: "overwrite buf pos [] = buf"
  by (simp add: overwrite_def)

lemma putString_loop_upt:
  "start + n \<le> length buf \<Longrightarrow> k \<le> n \<Longrightarrow>
   putString_loop buf start val [k..<n] =
     Inr (overwrite buf (start + k) (map (string_byte val) [k..<n]))"
proof (induction "n - k" arbitrary: k buf)
  case 0
  then show ?case by simp
next
  case (Suc d)
  then have lt: "k < n" and d: "d = n - Suc k" by simp_all
  have fit: "start + k + Suc (length (map (string_byte val) [Suc k..<n])) \<le> length buf"
    using Suc.prems lt by simp
  have len: "start + n \<le> length (overwrite buf (start + k) [string_byte val k])"
    using Suc.prems lt by simp
  have step: "putString_loop (overwrite buf (start + k) [string_byte val k]) start val [Suc k..<n]
      = Inr (overwrite (overwrite buf (start + k) [string_byte val k]) (start + Suc k)
               (map (string_byte val) [Suc k..<n]))"
    using Suc.hyps(1) [OF d len] lt by simp
  have "putString_loop buf start val [k..<n]
      = putString_loop (overwrite buf (start + k) [string_byte val k]) start val [Suc k..<n]"
    using Suc.prems lt
    by (simp add: upt_conv_Cons buffer_set_eq string_byte_def Let_def)
  also note step
  also have "overwrite (overwrite buf (start + k) [string_byte val k]) (start + Suc k)
               (map (string_byte val) [Suc k..<n])
             = overwrite buf (start + k) (map (string_byte val) [k..<n])"
    using overwrite_adjacent [OF fit] lt by (simp add: upt_conv_Cons)
  finally show ?case .
qed

lemma string_bytes_padded:
  "length val \<le> n \<Longrightarrow>
   map (string_byte val) [0..<n] = map ucast val @ replicate (n - length val) 32"
proof -
  assume h: "length val \<le> n"
  have a: "map (string_byte val) [0..<length val] = map ucast val"
    by (rule nth_equalityI) (simp_all add: string_byte_def toUint8_def)
  have b: "map (string_byte val) [length val..<n] = replicate (n - length val) 32"
    by (rule nth_equalityI) (simp_all add: string_byte_def toUint8_def)
  have "[0..<n] = [0..<length val] @ [length val..<n]"
    using h by (metis le_add_diff_inverse upt_add_eq_append zero_le)
  then show ?thesis using a b by (metis map_append)
qed

lemma putString_eq:
  "start \<le> end \<Longrightarrow> end \<le> length buf \<Longrightarrow>
   putString buf start end val =
     (if end - start < length val then Inl (Error ''String is too long to encode'')
      else Inr (overwrite buf start (map ucast val @ replicate (end - start - length val) 32)))"
  using putString_loop_upt [of start "end - start" buf 0 val]
  by (auto simp add: putString_def Let_def string_bytes_padded nat_diff_distrib')

lemma overwrite_snoc:
  "pos + Suc (length xs) \<le> length buf \<Longrightarrow>
   (overwrite buf pos xs)[pos + length xs := x] = overwrite buf pos (xs @ [x])"
proof -
  assume h: "pos + Suc (length xs) \<le> length buf"
  then have d: "drop (pos + length xs) buf = buf ! (pos + length xs) # drop (Suc (pos + length xs)) buf"
    by (simp add: Cons_nth_drop_Suc)
  show ?thesis
    using h by (simp add: overwrite_def list_update_append d)
qed

lemma uuidv4_fold:
  "n \<le> length rnds \<Longrightarrow> offset + n \<le> length buf \<Longrightarrow>
   fold (\<lambda>i b. if offset + i < length b then b[offset + i := rnds ! i] else b) [0..<n] buf
     = overwrite buf offset (take n rnds)"
proof (induction n)
  case 0
  then show ?case by simp
next
  case (Suc n)
  then have ih: "fold (\<lambda>i b. if offset + i < length b then b[offset + i := rnds ! i] else b)
                   [0..<n] buf = overwrite buf offset (take n rnds)"
    by simp
  have fit: "offset + Suc (length (take n rnds)) \<le> length buf"
    using Suc.prems by simp
  have "(overwrite buf offset (take n rnds))[offset + n := rnds ! n]
          = overwrite buf offset (take n rnds @ [rnds ! n])"
    using overwrite_snoc [OF fit, of "rnds ! n"] Suc.prems by simp
  then show ?case
    using Suc.prems ih by (simp add: take_Suc_conv_app_nth)
qed

lemma uuidv4_eq:
  "length rnds = 16 \<Longrightarrow> offset + 16 \<le> length buf \<Longrightarrow>
   uuidv4 rnds buf offset = overwrite buf offset rnds"
  using uuidv4_fold [of 16 rnds offset buf] by (simp add: uuidv4_def)

lemma encode_too_long:
  "32 < length (MessageType m) \<Longrightarrow>
   encode now rnds sha256 m = Inl (Error ''String is too long to encode'')"
  by (simp add: encode_def Let_def new_Uint8Array_def putInt_eq putString_eq
        Offset_defs Length_defs)

lemma encode_eq:
  assumes "length rnds = 16" and "length (sha256 (Payload m)) = 32"
    and "length (MessageType m) \<le> 32"
  shows "encode now rnds sha256 m = Inr (frame now rnds (sha256 (Payload m)) m)"
  using assms
  by (simp add: encode_def frame_def Let_def new_Uint8Array_def putInt_eq putLong_def
        putString_eq uuidv4_eq buffer_set_eq Offset_defs Length_defs)


section \<open>Reading past the end of a buffer\<close>

lemma toInt32_id: "- (2 ^ 31) \<le> v \<Longrightarrow> v < 2 ^ 31 \<Longrightarrow> toInt32 v = v"
  by (simp add: toInt32_def sint_sbintrunc' signed_take_bit_int_eq_self)

lemma js_shl_8: "0 \<le> a \<Longrightarrow> a < 2 ^ 23 \<Longrightarrow> js_shl a 8 = a * 256"
proof -
  assume h: "0 \<le> a" "a < 2 ^ 23"
  then have a: "toInt32 a = a" by (simp add: toInt32_id)
  have "a * 256 < 2 ^ 31" using h by simp
  moreover have "- (2 ^ 31) \<le> a * 256" using h by simp
  ultimately have "toInt32 (a * 256) = a * 256" by (rule toInt32_id [rotated])
  then show ?thesis by (simp add: js_shl_def a push_bit_eq_mult)
qed

lemma slice_beyond: "0 \<le> start \<Longrightarrow> int (length buffer) \<le> start \<Longrightarrow> slice buffer start e = []"
  by (simp add: slice_def relative_index_def Let_def)

lemma slice_in_range:
  "slice buffer (int s) (Some (int e)) = take (min e (length buffer) - s) (drop s buffer)"
  by (simp add: slice_def relative_index_def Let_def min_def)

lemma decodeInt_beyond: "length buffer \<le> start \<Longrightarrow> decodeInt buffer start e = 0"
  by (simp add: decodeInt_def slice_beyond)

lemma TextDecoder_decode_Nil: "TextDecoder_decode [] = []"
  by (simp add: TextDecoder_decode_def utf8_initial_def strip_bom_def)

lemma decodeText_beyond:
  "0 \<le> start \<Longrightarrow> int (length buffer) \<le> start \<Longrightarrow> decodeText buffer start e = []"
  by (simp add: decodeText_def slice_beyond TextDecoder_decode_Nil)

lemma decodeUuid_beyond:
  "length buffer \<le> start \<Longrightarrow> decodeUuid buffer start e = js ''----''"
  by (simp add: decodeUuid_def slice_beyond Let_def longToHex_def substr_def js_def
        slice_def relative_index_def)

lemma uint_byte_bound: "uint (b :: byte) < 256"
  using uint_bounded [of b] by simp

lemma decodeInt_short_nonneg:
  assumes "length buffer < 4"
  shows "0 \<le> decodeInt buffer 0 4"
proof -
  have sl: "slice buffer 0 (Some 4) = buffer"
    using assms slice_in_range [of buffer 0 4] by simp
  consider "buffer = []" | a where "buffer = [a]" | a b where "buffer = [a, b]"
    | a b c where "buffer = [a, b, c]"
    using assms
    by (cases buffer; simp; rename_tac t; case_tac t; simp; rename_tac u; case_tac u; simp;
        rename_tac v; case_tac v; simp)
  then show ?thesis
  proof cases
    case 1
    then show ?thesis using sl by (simp add: decodeInt_def)
  next
    case 2
    then show ?thesis using sl uint_byte_bound [of a] by (simp add: decodeInt_def js_shl_8)
  next
    case 3
    have "js_shl (uint a) 8 = uint a * 256"
      using uint_byte_bound [of a] by (simp add: js_shl_8)
    then show ?thesis using 3 sl by (simp add: decodeInt_def js_shl_8)
  next
    case 4
    have s1: "js_shl (uint a) 8 = uint a * 256"
      using uint_byte_bound [of a] by (simp add: js_shl_8)
    have "uint a * 256 + uint b < 2 ^ 23"
      using uint_byte_bound [of a] uint_byte_bound [of b] by simp
    then have s2: "js_shl (uint a * 256 + uint b) 8 = (uint a * 256 + uint b) * 256"
      by (simp add: js_shl_8)
    show ?thesis using 4 sl by (simp add: decodeInt_def js_shl_8 s1 s2)
  qed
qed


section \<open>The fields of an encoded frame\<close>

lemma field_overwrite_same:
  "pos + length src \<le> length buf \<Longrightarrow> n = length src \<Longrightarrow>
   field (overwrite buf pos src) pos n = src"
  by (simp add: field_def read_overwrite_same)

lemma field_overwrite_before:
  "pos \<le> length buf \<Longrightarrow> p + n \<le> pos \<Longrightarrow>
   field (overwrite buf pos src) p n = field buf p n"
  by (simp add: field_def read_overwrite_before)

lemma field_overwrite_after:
  "pos + length src \<le> length buf \<Longrightarrow> pos + length src \<le> p \<Longrightarrow>
   field (overwrite buf pos src) p n = field buf p n"
  by (simp add: field_def read_overwrite_after)

lemma field_replicate: "p + n \<le> k \<Longrightarrow> field (replicate k x) p n = replicate n x"
  by (simp add: field_def)

lemma field_split: "field buf p (a + b) = field buf p a @ field buf (p + a) b"
  by (simp add: field_def take_add add.commute)

lemmas field_simps = field_overwrite_same field_overwrite_before field_overwrite_after
  field_replicate

lemma length_frame [simp]:
  "length rnds = 16 \<Longrightarrow> length digest = 32 \<Longrightarrow> length (MessageType m) \<le> 32 \<Longrightarrow>
   length (frame now rnds digest m) = 120 + length (Payload m)"
  by (simp add: frame_def Let_def)

lemma frame_HL:
  "length rnds = 16 \<Longrightarrow> length digest = 32 \<Longrightarrow> length (MessageType m) \<le> 32 \<Longrightarrow>
   field (frame now rnds digest m) 0 4 = int32_bytes 116"
  by (simp add: frame_def Let_def field_simps)

lemma frame_MessageType:
  "length rnds = 16 \<Longrightarrow> length digest = 32 \<Longrightarrow> length (MessageType m) \<le> 32 \<Longrightarrow>
   field (frame now rnds digest m) 4 32 =
     map ucast (MessageType m) @ replicate (32 - length (MessageType m)) 32"
  by (simp add: frame_def Let_def field_simps)

lemma frame_SequenceNumber:
  "length rnds = 16 \<Longrightarrow> length digest = 32 \<Longrightarrow> length (MessageType m) \<le> 32 \<Longrightarrow>
   field (frame now rnds digest m) 48 8 = replicate 4 0 @ int32_bytes (SequenceNumber m)"
  using field_split [of "frame now rnds digest m" 48 4 4]
  by (simp add: frame_def Let_def field_simps)

lemma frame_MessageId:
  "length rnds = 16 \<Longrightarrow> length digest = 32 \<Longrightarrow> length (MessageType m) \<le> 32 \<Longrightarrow>
   field (frame now rnds digest m) 64 16 = rnds"
  by (simp add: frame_def Let_def field_simps)

lemma frame_PayloadType:
  "length rnds = 16 \<Longrightarrow> length digest = 32 \<Longrightarrow> length (MessageType m) \<le> 32 \<Longrightarrow>
   field (frame now rnds digest m) 112 4 = int32_bytes (PayloadType m)"
  by (simp add: frame_def Let_def field_simps)

lemma frame_PayloadLength:
  "length rnds = 16 \<Longrightarrow> length digest = 32 \<Longrightarrow> length (MessageType m) \<le> 32 \<Longrightarrow>
   field (frame now rnds digest m) 116 4 = int32_bytes (int (length (Payload m)))"
  by (simp add: frame_def Let_def field_simps)

lemma frame_Payload:
  "length rnds = 16 \<Longrightarrow> length digest = 32 \<Longrightarrow> length (MessageType m) \<le> 32 \<Longrightarrow>
   drop 120 (frame now rnds digest m) = map ucast (Payload m)"
  by (simp add: frame_def Let_def drop_overwrite_tail)


section \<open>Integers written and read back\<close>

lemma and_255: "(x::int) AND 255 = x mod 256"
proof -
  have "(255::int) = mask 8" by (simp add: mask_eq_exp_minus_1)
  then have "x AND 255 = take_bit 8 x" by (simp add: take_bit_eq_mask)
  then show ?thesis by (simp add: take_bit_eq_mod)
qed

lemma int32_byte:
  assumes "0 \<le> v" "v < 2 ^ 31"
  shows "uint (toUint8 (js_and (js_sar v n) 0xff)) = (v div 2 ^ (n mod 32)) mod 256"
proof -
  have v: "toInt32 v = v" using assms by (simp add: toInt32_id)
  have d0: "0 \<le> v div 2 ^ (n mod 32)" using assms by (simp add: pos_imp_zdiv_nonneg_iff)
  have "v div 2 ^ (n mod 32) \<le> v div 1"
    using assms by (intro zdiv_mono2) simp_all
  then have d1: "v div 2 ^ (n mod 32) < 2 ^ 31" using assms by simp
  have d: "toInt32 (v div 2 ^ (n mod 32)) = v div 2 ^ (n mod 32)"
    using d0 d1 by (simp add: toInt32_id)
  have c: "toInt32 255 = 255" by (simp add: toInt32_id)
  show ?thesis
    by (simp add: js_and_def js_sar_def v drop_bit_eq_div d c and_255 toUint8_def
        uint_word_of_int take_bit_eq_mod)
qed

lemma int32_byte0:
  assumes "0 \<le> v" "v < 2 ^ 31"
  shows "uint (toUint8 (js_and v 0xff)) = v mod 256"
proof -
  have v: "toInt32 v = v" using assms by (simp add: toInt32_id)
  have c: "toInt32 255 = 255" by (simp add: toInt32_id)
  show ?thesis
    by (simp add: js_and_def v c and_255 toUint8_def uint_word_of_int take_bit_eq_mod)
qed

lemma decode_int32_bytes:
  assumes "0 \<le> v" "v < 2 ^ 31"
  shows "foldl (\<lambda>acc byte. js_shl acc 8 + uint byte) 0 (int32_bytes v) = v"
proof -
  define q1 where "q1 = v div 256"
  define q2 where "q2 = q1 div 256"
  define q3 where "q3 = q2 div 256"
  define b0 where "b0 = v mod 256"
  define b1 where "b1 = q1 mod 256"
  define b2 where "b2 = q2 mod 256"
  have d1: "v div 2 ^ (8 mod 32) = q1" by (simp add: q1_def)
  have d2: "v div 2 ^ (16 mod 32) = q2" by (simp add: q1_def q2_def zdiv_zmult2_eq)
  have d3: "v div 2 ^ (24 mod 32) = q3" by (simp add: q1_def q2_def q3_def zdiv_zmult2_eq)
  have le: "v \<le> 2147483647" using assms by simp
  have n1: "0 \<le> q1" using assms by (simp add: q1_def pos_imp_zdiv_nonneg_iff)
  have n2: "0 \<le> q2" using n1 by (simp add: q2_def pos_imp_zdiv_nonneg_iff)
  have n3: "0 \<le> q3" using n2 by (simp add: q3_def pos_imp_zdiv_nonneg_iff)
  have u1: "q1 \<le> 8388607" using zdiv_mono1 [OF le, of 256] by (simp add: q1_def)
  have u2: "q2 \<le> 32767" using zdiv_mono1 [OF u1, of 256] by (simp add: q2_def)
  have u3: "q3 \<le> 127" using zdiv_mono1 [OF u2, of 256] by (simp add: q3_def)
  have m3: "q3 mod 256 = q3" using n3 u3 by simp
  have x3: "uint (toUint8 (js_and (js_sar v 24) 0xff)) = q3"
    using int32_byte [OF assms, of 24] unfolding d3 m3 .
  have x2: "uint (toUint8 (js_and (js_sar v 16) 0xff)) = b2"
    using int32_byte [OF assms, of 16] unfolding d2 b2_def .
  have x1: "uint (toUint8 (js_and (js_sar v 8) 0xff)) = b1"
    using int32_byte [OF assms, of 8] unfolding d1 b1_def .
  have x0: "uint (toUint8 (js_and v 0xff)) = b0"
    using int32_byte0 [OF assms] unfolding b0_def .
  have e0: "q1 * 256 + b0 = v" unfolding b0_def q1_def by simp
  have e1: "q2 * 256 + b1 = q1" unfolding b1_def q2_def by simp
  have e2: "q3 * 256 + b2 = q2" unfolding b2_def q3_def by simp
  have s0: "js_shl 0 8 = 0" by (simp add: js_shl_8)
  have s1: "js_shl q3 8 = q3 * 256" using n3 u3 by (simp add: js_shl_8)
  have s2: "js_shl q2 8 = q2 * 256" using n2 u2 by (simp add: js_shl_8)
  have s3: "js_shl q1 8 = q1 * 256" using n1 u1 by (simp add: js_shl_8)
  show ?thesis
    by (simp only: int32_bytes_def list.map foldl_Cons foldl_Nil x3 x2 x1 x0 s0 add_0
        s1 e2 s2 e1 s3 e0)
qed

lemma decode_int64_bytes:
  assumes "0 \<le> v" "v < 2 ^ 31"
  shows "foldl (\<lambda>acc byte. js_shl acc 8 + uint byte) 0 (replicate 4 0 @ int32_bytes v) = v"
proof -
  have s0: "js_shl 0 8 = 0" by (simp add: js_shl_8)
  have r: "replicate 4 (0::byte) = [0, 0, 0, 0]" by (simp add: numeral_eq_Suc)
  have "foldl (\<lambda>acc byte. js_shl acc 8 + uint byte) 0 (replicate 4 (0::byte)) = 0"
    unfolding r by (simp add: s0)
  then show ?thesis using decode_int32_bytes [OF assms] by simp
qed


section \<open>Text written and read back\<close>

lemma utf8_run_ascii:
  "\<forall>b\<in>set bs. b < 0x80 \<Longrightarrow> utf8_run utf8_initial bs = bs"
  by (induction bs) (simp_all add: utf8_handler_def utf8_lead_def utf8_initial_def)

lemma strip_bom_ascii: "\<forall>b\<in>set bs. b < 0x80 \<Longrightarrow> strip_bom bs = bs"
  by (cases bs) (auto simp add: strip_bom_def)

lemma utf16_units_ascii:
  "\<forall>b\<in>set bs. b < 0x80 \<Longrightarrow> concat (map utf16_units bs) = map of_nat bs"
  by (induction bs) (simp_all add: utf16_units_def)

lemma unat_ucast_ascii: "(c :: 16 word) < 0x80 \<Longrightarrow> unat (ucast c :: byte) = unat c"
proof -
  assume "c < 0x80"
  then have "unat c < 128" by (simp add: word_less_nat_alt)
  then show ?thesis by (simp add: unsigned_ucast_eq take_bit_eq_mod)
qed

lemma TextDecoder_decode_ascii:
  assumes "\<forall>c\<in>set s. c < (0x80 :: 16 word)"
  shows "TextDecoder_decode (map ucast s) = s"
proof -
  have u: "map unat (map ucast s :: bytes) = map unat s"
    using assms by (simp add: unat_ucast_ascii)
  have b: "\<forall>b\<in>set (map unat s). b < 0x80"
    using assms by (auto simp add: word_less_nat_alt)
  have "concat (map utf16_units (strip_bom (utf8_run utf8_initial (map unat s))))
          = map of_nat (map unat s)"
    using b by (simp only: utf8_run_ascii strip_bom_ascii utf16_units_ascii)
  then show ?thesis by (simp only: TextDecoder_decode_def u) (simp add: comp_def)
qed

lemma filter_no_NUL: "\<forall>c\<in>set s. 0 < c \<Longrightarrow> filter (\<lambda>c. c \<noteq> 0) s = (s :: jsstring)"
  by (induction s) auto

lemma trimEnd_padding:
  assumes "s = [] \<or> \<not> is_whitespace (last s)"
  shows "trimEnd (s @ replicate k 32) = s"
proof -
  have sp: "is_whitespace 32" by (simp add: is_whitespace_def)
  have "dropWhile is_whitespace (replicate k 32 @ rev s) = dropWhile is_whitespace (rev s)"
    using sp by (simp add: dropWhile_append)
  also have "\<dots> = rev s"
    using assms by (cases "rev s") (auto simp add: last_rev)
  finally show ?thesis by (simp add: trimEnd_def)
qed


section \<open>The MessageId field\<close>

lemma hex2_eq: "padStart 2 48 (byte_toString16 b) = hex_pair b"
  by (simp add: padStart_def byte_toString16_def hex_pair_def hex_digit_def)

lemma foldl_append_concat: "foldl (\<lambda>str b. str @ f b) acc bs = acc @ concat (map f bs)"
  by (induction bs arbitrary: acc) simp_all

lemma longToHex_eq: "longToHex bs = concat (map hex_pair bs)"
  by (simp add: longToHex_def hex2_eq foldl_append_concat)

lemma length_hex_pairs: "length (concat (map hex_pair bs)) = 2 * length bs"
  by (induction bs) (simp_all add: hex_pair_def)

lemma take_hex_pairs: "take (2 * n) (concat (map hex_pair bs)) = concat (map hex_pair (take n bs))"
proof (induction bs arbitrary: n)
  case Nil
  then show ?case by simp
next
  case (Cons b bs)
  then show ?case by (cases n) (simp_all add: hex_pair_def)
qed

lemma drop_hex_pairs: "drop (2 * n) (concat (map hex_pair bs)) = concat (map hex_pair (drop n bs))"
proof (induction bs arbitrary: n)
  case Nil
  then show ?case by simp
next
  case (Cons b bs)
  then show ?case by (cases n) (simp_all add: hex_pair_def)
qed

lemma decodeUuid_field:
  assumes "80 \<le> length buffer"
  shows "decodeUuid buffer 64 80 =
           uuid_string (drop 8 (field buffer 64 16) @ take 8 (field buffer 64 16))"
proof -
  define u where "u = field buffer 64 16"
  have lu: "length u = 16" using assms by (simp add: u_def field_def)
  have sl: "slice buffer (int 64) (Some (int 80)) = u"
    using assms by (simp only: slice_in_range) (simp add: u_def field_def)
  have ls: "slice u 0 (Some 8) = take 8 u"
    using lu slice_in_range [of u 0 8] by simp
  have ms: "slice u 8 (Some 16) = drop 8 u"
    using lu slice_in_range [of u 8 16] by simp
  define h where "h = concat (map hex_pair (drop 8 u @ take 8 u))"
  have raw: "longToHex (drop 8 u) @ longToHex (take 8 u) = h"
    by (simp add: longToHex_eq h_def)
  define w where "w = drop 8 u @ take 8 u"
  have t8: "take 8 h = concat (map hex_pair (take 4 w))"
    using take_hex_pairs [of 4 w] by (simp add: h_def w_def)
  have d8: "drop 8 h = concat (map hex_pair (drop 4 w))"
    using drop_hex_pairs [of 4 w] by (simp add: h_def w_def)
  have d12: "drop 12 h = concat (map hex_pair (drop 6 w))"
    using drop_hex_pairs [of 6 w] by (simp add: h_def w_def)
  have d16: "drop 16 h = concat (map hex_pair (drop 8 w))"
    using drop_hex_pairs [of 8 w] by (simp add: h_def w_def)
  have d20: "drop 20 h = concat (map hex_pair (drop 10 w))"
    using drop_hex_pairs [of 10 w] by (simp add: h_def w_def)
  have t4: "take 4 (concat (map hex_pair xs)) = concat (map hex_pair (take 2 xs))" for xs
    using take_hex_pairs [of 2 xs] by simp
  have "decodeUuid buffer 64 80 =
          join (js ''-'') [substr h 0 (Some 8), substr h 8 (Some 4), substr h 12 (Some 4),
                           substr h 16 (Some 4), substr h 20 None]"
    by (simp only: decodeUuid_def Let_def sl ls ms raw)
  also have "\<dots> =
          take 8 h @ js ''-'' @ take 4 (drop 8 h) @ js ''-'' @ take 4 (drop 12 h) @ js ''-'' @
          take 4 (drop 16 h) @ js ''-'' @ drop 20 h"
    by (simp add: substr_def)
  also have "\<dots> = uuid_string w"
    by (simp only: t8 d8 d12 d16 d20 t4 uuid_string_def)
  finally show ?thesis by (simp add: w_def u_def)
qed

lemma hex_digit_ok: "d < 16 \<Longrightarrow> is_hex_digit (hex_digit d)"
proof -
  assume d: "d < 16"
  have a: "unat (of_nat (48 + d) :: 16 word) = 48 + d"
    using d by (simp add: unat_of_nat take_bit_eq_mod del: of_nat_add)
  have b: "unat (of_nat (87 + d) :: 16 word) = 87 + d"
    using d by (simp add: unat_of_nat take_bit_eq_mod del: of_nat_add)
  show ?thesis
    using d by (simp add: hex_digit_def is_hex_digit_def word_le_nat_alt a b del: of_nat_add)
qed

lemma hex_pair_ok: "list_all is_hex_digit (hex_pair b)"
proof -
  have "unat b < 256" using unsigned_less [of b] by simp
  then have "unat b div 16 < 16" by simp
  then show ?thesis by (simp add: hex_pair_def hex_digit_ok)
qed

lemma hex_pairs_ok: "list_all is_hex_digit (concat (map hex_pair bs))"
  by (induction bs) (simp_all add: hex_pair_ok)

lemma is_uuid_stringI:
  assumes "length a = 8" "length b = 4" "length c = 4" "length d = 4" "length e = 12"
    and "list_all is_hex_digit a" "list_all is_hex_digit b" "list_all is_hex_digit c"
      "list_all is_hex_digit d" "list_all is_hex_digit e"
  shows "is_uuid_string (a @ js ''-'' @ b @ js ''-'' @ c @ js ''-'' @ d @ js ''-'' @ e)"
  using assms by (simp add: is_uuid_string_def js_def)

lemma uuid_string_ok: "length u = 16 \<Longrightarrow> is_uuid_string (uuid_string u)"
  unfolding uuid_string_def
  by (rule is_uuid_stringI) (simp_all add: length_hex_pairs hex_pairs_ok)


section \<open>Decoding an encoded frame\<close>

lemma decodeInt_zero_prefix:
  "foldl (\<lambda>acc byte. js_shl acc 8 + uint byte) 0 (replicate 4 (0::byte) @ xs)
     = foldl (\<lambda>acc byte. js_shl acc 8 + uint byte) 0 xs"
proof -
  have s0: "js_shl 0 8 = 0" by (simp add: js_shl_8)
  have r: "replicate 4 (0::byte) = [0, 0, 0, 0]" by (simp add: numeral_eq_Suc)
  show ?thesis unfolding r by (simp add: s0)
qed

lemma length_js [simp]: "length (js s) = length s"
  by (simp add: js_def)

lemma length_example_uuid [simp]: "length example_uuid = 16"
  by (simp add: example_uuid_def)

lemma length_example_digest [simp]: "length (example_digest p) = 32"
  by (simp add: example_digest_def)

lemma decodeInt_field:
  "e \<le> length buffer \<Longrightarrow>
   decodeInt buffer s e = foldl (\<lambda>acc byte. js_shl acc 8 + uint byte) 0 (field buffer s (e - s))"
  by (simp only: decodeInt_def Let_def slice_in_range) (simp add: field_def)

lemma decodeText_field:
  "e \<le> length buffer \<Longrightarrow>
   decodeText buffer (int s) (Some (int e)) =
     filter (\<lambda>c. c \<noteq> 0) (TextDecoder_decode (field buffer s (e - s)))"
  by (simp only: decodeText_def Let_def slice_in_range) (simp add: field_def)

lemma decodeText_tail:
  "decodeText buffer (int s) None = filter (\<lambda>c. c \<noteq> 0) (TextDecoder_decode (drop s buffer))"
  by (simp add: decodeText_def Let_def slice_def relative_index_def min_def)

lemma plain_ascii_iff: "plain_ascii s \<longleftrightarrow> (\<forall>c\<in>set s. 0 < c \<and> c < 0x80)"
  by (simp add: plain_ascii_def list_all_iff)

lemma decode_plain_text:
  assumes "plain_ascii s"
  shows "filter (\<lambda>c. c \<noteq> 0) (TextDecoder_decode (map ucast s)) = s"
  using assms by (simp add: plain_ascii_iff TextDecoder_decode_ascii filter_no_NUL)

lemma decode_padded_text:
  assumes "plain_ascii s"
  shows "filter (\<lambda>c. c \<noteq> 0) (TextDecoder_decode (map ucast s @ replicate k 32))
           = s @ replicate k 32"
proof -
  have p: "plain_ascii (s @ replicate k 32)"
    using assms by (auto simp add: plain_ascii_def list_all_iff)
  have "map ucast s @ replicate k (32 :: byte) = map ucast (s @ replicate k (32 :: 16 word))"
    by simp
  then show ?thesis using decode_plain_text [OF p] by simp
qed

lemma decode_frame_HL:
  assumes r: "length rnds = 16" and d: "length digest = 32"
    and l: "length (MessageType m) \<le> 32"
  shows "decodeInt (frame now rnds digest m) 0 4 = 116"
proof -
  have "length (frame now rnds digest m) = 120 + length (Payload m)" using r d l by simp
  then show ?thesis
    using decodeInt_field [of 4 "frame now rnds digest m" 0] frame_HL [OF r d l, of now]
      decode_int32_bytes [of 116] by simp
qed

lemma decode_frame_MessageType:
  assumes r: "length rnds = 16" and d: "length digest = 32"
    and l: "length (MessageType m) \<le> 32"
  shows "MessageType (decode (frame now rnds digest m)) =
           trimEnd (filter (\<lambda>c. c \<noteq> 0) (TextDecoder_decode
             (map ucast (MessageType m) @ replicate (32 - length (MessageType m)) 32)))"
proof -
  have "length (frame now rnds digest m) = 120 + length (Payload m)" using r d l by simp
  then have "decodeText (frame now rnds digest m) (int 4) (Some (int 36)) =
      filter (\<lambda>c. c \<noteq> 0) (TextDecoder_decode
        (map ucast (MessageType m) @ replicate (32 - length (MessageType m)) 32))"
    using decodeText_field [of 36 "frame now rnds digest m" 4]
      frame_MessageType [OF r d l, of now] by simp
  then show ?thesis by (simp add: decode_def Let_def Offset_defs Length_defs)
qed

lemma decode_frame_SequenceNumber:
  assumes r: "length rnds = 16" and d: "length digest = 32"
    and l: "length (MessageType m) \<le> 32"
  shows "SequenceNumber (decode (frame now rnds digest m)) =
           foldl (\<lambda>acc byte. js_shl acc 8 + uint byte) 0
             (replicate 4 0 @ int32_bytes (SequenceNumber m))"
proof -
  have "length (frame now rnds digest m) = 120 + length (Payload m)" using r d l by simp
  then have "decodeInt (frame now rnds digest m) 48 56 =
      foldl (\<lambda>acc byte. js_shl acc 8 + uint byte) 0
        (replicate 4 0 @ int32_bytes (SequenceNumber m))"
    using decodeInt_field [of 56 "frame now rnds digest m" 48]
      frame_SequenceNumber [OF r d l, of now] by simp
  then show ?thesis by (simp add: decode_def Let_def Offset_defs Length_defs)
qed

lemma decode_frame_PayloadType:
  assumes r: "length rnds = 16" and d: "length digest = 32"
    and l: "length (MessageType m) \<le> 32"
  shows "PayloadType (decode (frame now rnds digest m)) =
           foldl (\<lambda>acc byte. js_shl acc 8 + uint byte) 0 (int32_bytes (PayloadType m))"
proof -
  have "length (frame now rnds digest m) = 120 + length (Payload m)" using r d l by simp
  then have "decodeInt (frame now rnds digest m) 112 116 =
      foldl (\<lambda>acc byte. js_shl acc 8 + uint byte) 0 (int32_bytes (PayloadType m))"
    using decodeInt_field [of 116 "frame now rnds digest m" 112]
      frame_PayloadType [OF r d l, of now] by simp
  then show ?thesis by (simp add: decode_def Let_def Offset_defs Length_defs)
qed

lemma decode_frame_Payload:
  assumes r: "length rnds = 16" and d: "length digest = 32"
    and l: "length (MessageType m) \<le> 32"
  shows "Payload (decode (frame now rnds digest m)) =
           filter (\<lambda>c. c \<noteq> 0) (TextDecoder_decode (map ucast (Payload m)))"
proof -
  have "decodeText (frame now rnds digest m) (int 120) None =
      filter (\<lambda>c. c \<noteq> 0) (TextDecoder_decode (map ucast (Payload m)))"
    using decodeText_tail [of "frame now rnds digest m" 120] frame_Payload [OF r d l, of now]
    by simp
  then show ?thesis
    using decode_frame_HL [OF r d l, of now]
    by (simp add: decode_def Let_def Offset_defs Length_defs)
qed

lemma decode_frame_MessageId:
  assumes r: "length rnds = 16" and d: "length digest = 32"
    and l: "length (MessageType m) \<le> 32"
  shows "MessageId (decode (frame now rnds digest m)) =
           uuid_string (drop 8 rnds @ take 8 rnds)"
proof -
  have "length (frame now rnds digest m) = 120 + length (Payload m)" using r d l by simp
  then have "decodeUuid (frame now rnds digest m) 64 80 =
      uuid_string (drop 8 rnds @ take 8 rnds)"
    using decodeUuid_field [of "frame now rnds digest m"] frame_MessageId [OF r d l, of now]
    by simp
  then show ?thesis by (simp add: decode_def Let_def Offset_defs Length_defs)
qed

lemma decode_frame:
  assumes r: "length rnds = 16" and d: "length digest = 32"
    and l: "length (MessageType m) \<le> 32"
    and mt: "plain_ascii (MessageType m)"
    and tr: "MessageType m = [] \<or> \<not> is_whitespace (last (MessageType m))"
    and sq: "0 \<le> SequenceNumber m" "SequenceNumber m < 2 ^ 31"
    and pt: "0 \<le> PayloadType m" "PayloadType m < 2 ^ 31"
    and pl: "plain_ascii (Payload m)"
  shows "MessageType (decode (frame now rnds digest m)) = MessageType m"
    and "SequenceNumber (decode (frame now rnds digest m)) = SequenceNumber m"
    and "PayloadType (decode (frame now rnds digest m)) = PayloadType m"
    and "Payload (decode (frame now rnds digest m)) = Payload m"
proof -
  show "MessageType (decode (frame now rnds digest m)) = MessageType m"
    using decode_frame_MessageType [OF r d l, of now] decode_padded_text [OF mt]
      trimEnd_padding [OF tr] by simp
  show "SequenceNumber (decode (frame now rnds digest m)) = SequenceNumber m"
    using decode_frame_SequenceNumber [OF r d l, of now] decode_int64_bytes [OF sq] by simp
  show "PayloadType (decode (frame now rnds digest m)) = PayloadType m"
    using decode_frame_PayloadType [OF r d l, of now] decode_int32_bytes [OF pt] by simp
  show "Payload (decode (frame now rnds digest m)) = Payload m"
    using decode_frame_Payload [OF r d l, of now] decode_plain_text [OF pl] by simp
qed


section \<open>Payloads of plain ASCII text\<close>

text \<open>
  For such a payload the code units, the bytes written and the UTF-8 encoding coincide,
  and the buffer is laid out as the header comment describes.
\<close>

lemma utf16_code_points_ascii:
  "\<forall>c\<in>set s. c < 0x80 \<Longrightarrow> utf16_code_points s = map unat s"
proof (induction s rule: utf16_code_points.induct)
  case 1
  then show ?case by simp
next
  case (2 c)
  then show ?case
    by (simp add: scalar_value_def is_high_surrogate_def is_low_surrogate_def
        word_le_nat_alt word_less_nat_alt)
next
  case (3 c d rest)
  then show ?case
    by (simp add: scalar_value_def is_high_surrogate_def is_low_surrogate_def
        word_le_nat_alt word_less_nat_alt)
qed

lemma utf8_encode_ascii:
  assumes "\<forall>c\<in>set s. c < (0x80 :: 16 word)"
  shows "utf8_encode s = map ucast s"
proof -
  have b: "\<forall>n\<in>set (map unat s). n < 0x80"
    using assms by (auto simp add: word_less_nat_alt)
  have "concat (map utf8_of_code_point ns) = ns" if "\<forall>n\<in>set ns. n < 0x80" for ns
    using that by (induction ns) (simp_all add: utf8_of_code_point_def)
  then have "concat (map utf8_of_code_point (map unat s)) = map unat s"
    using b by blast
  then show ?thesis
    using assms by (simp add: utf8_encode_def utf16_code_points_ascii comp_def)
qed

lemma encode_ascii_payload_layout:
  assumes "length rnds = 16" and "length (sha256 (Payload m)) = 32"
    and "length (MessageType m) \<le> 32" and "plain_ascii (Payload m)"
  shows "\<exists>buffer. encode now rnds sha256 m = Inr buffer \<and>
           length buffer = 120 + length (utf8_encode (Payload m)) \<and>
           take 4 (drop 116 buffer) = int32_bytes (int (length (utf8_encode (Payload m)))) \<and>
           drop 120 buffer = utf8_encode (Payload m)"
proof -
  have u: "utf8_encode (Payload m) = map ucast (Payload m)"
    using assms(4) by (intro utf8_encode_ascii) (simp add: plain_ascii_iff)
  show ?thesis
    using encode_eq [of rnds sha256 m now, OF assms(1-3)]
      length_frame [OF assms(1-3), of now] frame_PayloadLength [OF assms(1-3), of now]
      frame_Payload [OF assms(1-3), of now]
    by (simp add: u field_def)
qed


lemma utf8_encode_two_byte:
  "utf8_encode (replicate n 0xE9) = concat (replicate n [0xC3, 0xA9])"
proof -
  have s: "scalar_value 0xE9 = 0xE9"
    by (simp add: scalar_value_def is_high_surrogate_def is_low_surrogate_def)
  have h: "\<not> is_high_surrogate 0xE9" by (simp add: is_high_surrogate_def)
  have c: "utf16_code_points (replicate n 0xE9) = replicate n 0xE9" for n
  proof (induction n rule: less_induct)
    case (less n)
    show ?case
    proof (cases n)
      case 0
      then show ?thesis by simp
    next
      case (Suc k)
      show ?thesis
      proof (cases k)
        case 0
        then show ?thesis using Suc s by simp
      next
        case (Suc j)
        have "utf16_code_points (replicate (Suc j) 0xE9) = replicate (Suc j) 0xE9"
          using less [of "Suc j"] \<open>n = Suc k\<close> Suc by simp
        then show ?thesis using \<open>n = Suc k\<close> Suc s h by simp
      qed
    qed
  qed
  have e: "utf8_of_code_point 0xE9 = [0xC3, 0xA9]"
    by (simp add: utf8_of_code_point_def)
  have m: "map of_nat (concat (replicate k [0xC3, 0xA9 :: nat]))
             = concat (replicate k [0xC3, 0xA9 :: byte])" for k
    by (induction k) simp_all
  have "concat (map utf8_of_code_point (replicate n 0xE9)) = concat (replicate n [0xC3, 0xA9])"
    by (simp add: e)
  then show ?thesis
    by (simp only: utf8_encode_def c m)
qed


section \<open>The session\<close>

lemma emitted_append: "emitted (a @ b) = emitted a @ emitted b"
  by (induction a rule: emitted.induct) simp_all

lemma sent_append: "sent (a @ b) = sent a @ sent b"
  by (induction a rule: sent.induct) simp_all

lemma emitted_callbacks: "emitted (map (\<lambda>h. Callback (f h) d) hs) = []"
  by (induction hs) simp_all

lemma sent_callbacks: "sent (map (\<lambda>h. Callback (f h) d) hs) = []"
  by (induction hs) simp_all

lemma emitted_emit: "emitted (trace (emit s e d)) = emitted (trace s) @ [(e, d)]"
  by (simp add: emit_def emitted_append emitted_callbacks)

lemma sent_emit: "sent (trace (emit s e d)) = sent (trace s)"
  by (simp add: emit_def sent_append sent_callbacks)

lemma acknowledge_step:
  assumes "MessageType msg = AcknowledgeMessage" and "Payload msg \<noteq> []"
    and "JSON_parse rt (Payload msg) = Inr (JObject members)"
    and "map_of members (js ''AcknowledgedMessageSequenceNumber'') = Some (JNumber n)"
  shows "handle_message rt now rnds s msg =
           Inr (s\<lparr>lastAcknowledgedSequenceNumber :=
                  (if lastAcknowledgedSequenceNumber s = None
                      \<or> the (lastAcknowledgedSequenceNumber s) < n
                   then Some n else lastAcknowledgedSequenceNumber s)\<rparr>)"
  using assms
  by (simp add: handle_message_def acknowledge_case_def member_def AcknowledgeMessage_def js_def)

lemma emit_fields [simp]:
  "outgoingSequenceNumber (emit s e d) = outgoingSequenceNumber s"
  "lastAcknowledgedSequenceNumber (emit s e d) = lastAcknowledgedSequenceNumber s"
  "paused (emit s e d) = paused s"
  "outputMap (emit s e d) = outputMap s"
  "connectionTerminated (emit s e d) = connectionTerminated s"
  "connectionClosed (emit s e d) = connectionClosed s"
  "readyState (emit s e d) = readyState s"
  "handlers (emit s e d) = handlers s"
  by (simp_all add: emit_def)

lemma webSocket_send_fields [simp]:
  "outgoingSequenceNumber (webSocket_send s x) = outgoingSequenceNumber s"
  "lastAcknowledgedSequenceNumber (webSocket_send s x) = lastAcknowledgedSequenceNumber s"
  "paused (webSocket_send s x) = paused s"
  "outputMap (webSocket_send s x) = outputMap s"
  "connectionTerminated (webSocket_send s x) = connectionTerminated s"
  "connectionClosed (webSocket_send s x) = connectionClosed s"
  "readyState (webSocket_send s x) = readyState s"
  "handlers (webSocket_send s x) = handlers s"
  "trace (webSocket_send s x) = trace s @ [x]"
  by (simp_all add: webSocket_send_def)

lemma encode_succeeds:
  assumes "length rnds = 16" and "\<forall>p. length (sha256_digest rt p) = 32"
    and "length (MessageType m) \<le> 32"
  shows "encode now rnds (sha256_digest rt) m
           = Inr (frame now rnds (sha256_digest rt (Payload m)) m)"
  using assms encode_eq [of rnds "sha256_digest rt" m now] by simp

lemma acknowledgeMessage_eq:
  assumes "length rnds = 16" and "\<forall>p. length (sha256_digest rt p) = 32"
  shows "acknowledgeMessage rt now rnds s t i n =
           Inr (webSocket_send s
                  (Send (frame now rnds
                           (sha256_digest rt (Payload (acknowledgement s t i n)))
                           (acknowledgement s t i n))))"
proof -
  have "length (MessageType (acknowledgement s t i n)) \<le> 32"
    by (simp add: acknowledgement_def AcknowledgeMessage_def)
  then show ?thesis
    using encode_succeeds [OF assms, of "acknowledgement s t i n" now]
    by (simp add: acknowledgeMessage_def Let_def)
qed

lemma example_parse_ack:
  \<open>example_JSON_parse (js ''{"AcknowledgedMessageSequenceNumber":5}'')
     = Inr (JObject [(js ''AcknowledgedMessageSequenceNumber'', JNumber 5)])\<close>
  \<open>example_JSON_parse (js ''{"AcknowledgedMessageSequenceNumber":3}'')
     = Inr (JObject [(js ''AcknowledgedMessageSequenceNumber'', JNumber 3)])\<close>
  \<open>example_JSON_parse (js ''{"AcknowledgedMessageSequenceNumber":8}'')
     = Inr (JObject [(js ''AcknowledgedMessageSequenceNumber'', JNumber 8)])\<close>
  by (simp_all add: example_JSON_parse_def js_def)

lemma sent_webSocket_send: "sent (trace (webSocket_send s (Send f))) = sent (trace s) @ [f]"
  by (simp add: sent_append)

lemma emitted_webSocket_send: "emitted (trace (webSocket_send s (Send f))) = emitted (trace s)"
  by (simp add: emitted_append)

lemma example_runtime_digest: "\<forall>p. length (sha256_digest example_runtime p) = 32"
  by (simp add: example_runtime_def)

lemma example_parse_closed:
  \<open>example_JSON_parse (js ''{"Output":"done"}'')
     = Inr (JObject [(js ''Output'', JString (js ''done''))])\<close>
  \<open>example_JSON_parse (js ''{"Output":""}'') = Inr (JObject [(js ''Output'', JString [])])\<close>
  by (simp_all add: example_JSON_parse_def js_def)


lemma acknowledgeMessage_last:
  "acknowledgeMessage rt now rnds s t i n = Inr s' \<Longrightarrow>
   lastAcknowledgedSequenceNumber s' = lastAcknowledgedSequenceNumber s"
  by (auto simp add: acknowledgeMessage_def Let_def and_then_def split: sum.splits)

lemma channel_closed_output_last:
  "channel_closed_output s v = Inr s' \<Longrightarrow>
   lastAcknowledgedSequenceNumber s' = lastAcknowledgedSequenceNumber s"
  by (auto simp add: channel_closed_output_def split: option.splits json.splits if_splits)

lemma channel_closed_case_last:
  "channel_closed_case rt s msg = Inr s' \<Longrightarrow>
   lastAcknowledgedSequenceNumber s' = lastAcknowledgedSequenceNumber s"
  by (auto simp add: channel_closed_case_def and_then_def
      dest!: channel_closed_output_last split: sum.splits if_splits)

lemma acknowledge_case_last:
  "acknowledge_case rt s msg = Inr s' \<Longrightarrow> lastAcknowledgedSequenceNumber s = Some k \<Longrightarrow>
   \<exists>k'. lastAcknowledgedSequenceNumber s' = Some k' \<and> k \<le> k'"
  by (auto simp add: acknowledge_case_def and_then_def
      split: sum.splits if_splits option.splits json.splits)

lemma handle_message_last:
  assumes "handle_message rt now rnds s msg = Inr s'"
    and "lastAcknowledgedSequenceNumber s = Some k"
  shows "\<exists>k'. lastAcknowledgedSequenceNumber s' = Some k' \<and> k \<le> k'"
proof -
  consider (out) "MessageType msg = js ''output_stream_data''"
    | (start) "MessageType msg \<noteq> js ''output_stream_data''"
        "MessageType msg = js ''start_publication''"
    | (pause) "MessageType msg \<noteq> js ''output_stream_data''"
        "MessageType msg \<noteq> js ''start_publication''"
        "MessageType msg = js ''pause_publication''"
    | (ack) "MessageType msg \<noteq> js ''output_stream_data''"
        "MessageType msg \<noteq> js ''start_publication''"
        "MessageType msg \<noteq> js ''pause_publication''"
        "MessageType msg = js ''acknowledge''"
    | (input) "MessageType msg \<noteq> js ''output_stream_data''"
        "MessageType msg \<noteq> js ''start_publication''"
        "MessageType msg \<noteq> js ''pause_publication''"
        "MessageType msg \<noteq> js ''acknowledge''"
        "MessageType msg = js ''input_stream_data''"
    | (closed) "MessageType msg \<noteq> js ''output_stream_data''"
        "MessageType msg \<noteq> js ''start_publication''"
        "MessageType msg \<noteq> js ''pause_publication''"
        "MessageType msg \<noteq> js ''acknowledge''"
        "MessageType msg \<noteq> js ''input_stream_data''"
        "MessageType msg = js ''channel_closed''"
    | (other) "MessageType msg \<noteq> js ''output_stream_data''"
        "MessageType msg \<noteq> js ''start_publication''"
        "MessageType msg \<noteq> js ''pause_publication''"
        "MessageType msg \<noteq> js ''acknowledge''"
        "MessageType msg \<noteq> js ''input_stream_data''"
        "MessageType msg \<noteq> js ''channel_closed''"
    by blast
  then show ?thesis
  proof cases
    case out
    then obtain s1 where
      "acknowledgeMessage rt now rnds s (MessageType msg) (MessageId msg) (SequenceNumber msg)
         = Inr s1"
      and s': "s' = (if outputMap s1 (MessageId msg) = None
                     then emit s1 Ev_output (Payload msg) else s1)
                    \<lparr>outputMap := (outputMap (if outputMap s1 (MessageId msg) = None
                        then emit s1 Ev_output (Payload msg) else s1))
                        (MessageId msg \<mapsto> Payload msg)\<rparr>"
      using assms(1)
      by (auto simp add: handle_message_def and_then_def Let_def split: sum.splits)
    then have "lastAcknowledgedSequenceNumber s1 = Some k"
      using assms(2) by (simp add: acknowledgeMessage_last)
    then show ?thesis by (simp add: s')
  next
    case start
    then show ?thesis using assms by (auto simp add: handle_message_def Let_def)
  next
    case pause
    then show ?thesis using assms by (auto simp add: handle_message_def Let_def)
  next
    case ack
    then show ?thesis
      using assms acknowledge_case_last [of rt s msg s' k] by (simp add: handle_message_def)
  next
    case input
    then show ?thesis using assms by (auto simp add: handle_message_def)
  next
    case closed
    then show ?thesis
      using assms channel_closed_case_last [of rt s msg s'] by (simp add: handle_message_def)
  next
    case other
    then show ?thesis using assms by (auto simp add: handle_message_def)
  qed
qed

section \<open>The claims about the codec\<close>

text \<open>
  C1 (as amended). Let a message have a type tag of at most 32 code units that is plain
  ASCII without NUL and does not end in white space, a sequence number and a payload
  type in the range 0 .. 2^31 - 1, and a payload that is plain ASCII without NUL. Then
  \<open>encode\<close> returns a buffer, and decoding that buffer gives back the message type,
  the sequence number, the payload type and the payload exactly. The decoded MessageId
  has the 8-4-4-4-12 hexadecimal shape of a UUID and is determined by the 16 generated
  bytes alone; the message passed to \<open>encode\<close> has no MessageId field.
\<close>

theorem encode_decode_roundtrip:
  assumes "length rnds = 16" and "length (sha256 (Payload m)) = 32"
    and "length (MessageType m) \<le> 32"
    and "plain_ascii (MessageType m)"
    and "MessageType m = [] \<or> \<not> is_whitespace (last (MessageType m))"
    and "0 \<le> SequenceNumber m" and "SequenceNumber m < 2 ^ 31"
    and "0 \<le> PayloadType m" and "PayloadType m < 2 ^ 31"
    and "plain_ascii (Payload m)"
  shows "\<exists>buffer. encode now rnds sha256 m = Inr buffer \<and>
           MessageType (decode buffer) = MessageType m \<and>
           SequenceNumber (decode buffer) = SequenceNumber m \<and>
           PayloadType (decode buffer) = PayloadType m \<and>
           Payload (decode buffer) = Payload m \<and>
           is_uuid_string (MessageId (decode buffer)) \<and>
           MessageId (decode buffer) = uuid_string (drop 8 rnds @ take 8 rnds)"
proof -
  let ?b = "frame now rnds (sha256 (Payload m)) m"
  have e: "encode now rnds sha256 m = Inr ?b"
    using assms(1-3) by (rule encode_eq)
  have id: "MessageId (decode ?b) = uuid_string (drop 8 rnds @ take 8 rnds)"
    using assms(1-3) by (rule decode_frame_MessageId)
  have "length (drop 8 rnds @ take 8 rnds) = 16" using assms(1) by simp
  then have ok: "is_uuid_string (MessageId (decode ?b))"
    unfolding id by (rule uuid_string_ok)
  show ?thesis
    using e id ok decode_frame [OF assms, of now] by simp
qed

theorem encode_decode_roundtrip_witness:
  "map_sum id decode
     (encode 1700000000000 example_uuid example_digest
        \<lparr>MessageType = InputStreamDataMessage, SequenceNumber = 7,
         PayloadType = PayloadType_Output, Payload = js ''ls -l''\<rparr>)
   = Inr \<lparr>MessageType = InputStreamDataMessage, SequenceNumber = 7,
          PayloadType = PayloadType_Output, Payload = js ''ls -l'',
          MessageId = js ''08090a0b-0c0d-0e0f-0001-020304050607''\<rparr>"
proof -
  let ?m = "\<lparr>MessageType = InputStreamDataMessage, SequenceNumber = 7,
             PayloadType = PayloadType_Output, Payload = js ''ls -l''\<rparr>"
  have t: "plain_ascii (MessageType ?m)"
    by (simp add: plain_ascii_def InputStreamDataMessage_def js_def)
  have w: "MessageType ?m = [] \<or> \<not> is_whitespace (last (MessageType ?m))"
    by (simp add: is_whitespace_def InputStreamDataMessage_def js_def)
  have p: "plain_ascii (Payload ?m)"
    by (simp add: plain_ascii_def js_def)
  have l: "length (MessageType ?m) \<le> 32"
    by (simp add: InputStreamDataMessage_def)
  have u: "uuid_string (drop 8 example_uuid @ take 8 example_uuid)
             = js ''08090a0b-0c0d-0e0f-0001-020304050607''"
    by (simp add: example_uuid_def uuid_string_def hex_pair_def hex_digit_def js_def)
  have r: "length example_uuid = 16" and d: "length (example_digest (Payload ?m)) = 32"
    by simp_all
  have s: "0 \<le> SequenceNumber ?m" "SequenceNumber ?m < 2 ^ 31"
    "0 \<le> PayloadType ?m" "PayloadType ?m < 2 ^ 31"
    by (simp_all add: PayloadType_Output_def)
  obtain buffer where
    "encode 1700000000000 example_uuid example_digest ?m = Inr buffer"
    "MessageType (decode buffer) = MessageType ?m"
    "SequenceNumber (decode buffer) = SequenceNumber ?m"
    "PayloadType (decode buffer) = PayloadType ?m"
    "Payload (decode buffer) = Payload ?m"
    "MessageId (decode buffer) = uuid_string (drop 8 example_uuid @ take 8 example_uuid)"
    using encode_decode_roundtrip
      [of example_uuid example_digest ?m 1700000000000, OF r d l t w s p] by blast
  then show ?thesis by (simp add: u)
qed

text \<open>
  The claim as the specification states it fails where the codec is lossy on purpose:
  \<open>decodeText\<close> strips NUL, so a payload that is one NUL character comes back empty;
  the long-integer field carries 32 bits, so sequence number 2^32 comes back as 0; and
  \<open>trimEnd\<close> removes trailing white space of the tag along with the padding.
\<close>

theorem roundtrip_counterexample:
  "map_sum id (Payload \<circ> decode)
     (encode 0 example_uuid example_digest
        \<lparr>MessageType = InputStreamDataMessage, SequenceNumber = 0, PayloadType = 1,
         Payload = [0]\<rparr>) = Inr [] \<and>
   map_sum id (SequenceNumber \<circ> decode)
     (encode 0 example_uuid example_digest
        \<lparr>MessageType = InputStreamDataMessage, SequenceNumber = 4294967296,
         PayloadType = 1, Payload = []\<rparr>) = Inr 0 \<and>
   map_sum id (MessageType \<circ> decode)
     (encode 0 example_uuid example_digest
        \<lparr>MessageType = js ''a '', SequenceNumber = 0, PayloadType = 1,
         Payload = []\<rparr>) = Inr (js ''a'')"
proof -
  have c1: "map_sum id (Payload \<circ> decode)
     (encode 0 example_uuid example_digest
        \<lparr>MessageType = InputStreamDataMessage, SequenceNumber = 0, PayloadType = 1,
         Payload = [0]\<rparr>) = Inr []"
    by (simp add: encode_eq decode_frame_Payload InputStreamDataMessage_def
        TextDecoder_decode_def utf8_handler_def utf8_lead_def utf8_initial_def strip_bom_def
        utf16_units_def)
  have b: "int32_bytes 4294967296 = [0, 0, 0, 0]"
    by (simp add: int32_bytes_def js_and_def js_sar_def toInt32_def toUint8_def)
  have r: "[0, 0, 0, 0] = replicate 4 (0::byte) @ []"
    by (simp add: numeral_eq_Suc)
  have "foldl (\<lambda>acc byte. js_shl acc 8 + uint byte) 0
          (replicate 4 0 @ int32_bytes 4294967296) = 0"
    by (simp only: b r decodeInt_zero_prefix foldl_Nil)
  then have c2: "map_sum id (SequenceNumber \<circ> decode)
     (encode 0 example_uuid example_digest
        \<lparr>MessageType = InputStreamDataMessage, SequenceNumber = 4294967296,
         PayloadType = 1, Payload = []\<rparr>) = Inr 0"
    by (simp add: encode_eq decode_frame_SequenceNumber InputStreamDataMessage_def)
  have p: "plain_ascii (js ''a '')" by (simp add: plain_ascii_def js_def)
  have "js ''a '' @ replicate 30 32 = js ''a'' @ replicate 31 32"
    by (simp add: js_def numeral_eq_Suc)
  then have "trimEnd (js ''a '' @ replicate 30 32) = js ''a''"
    using trimEnd_padding [of "js ''a''" 31] by (simp add: js_def is_whitespace_def)
  then have c3: "map_sum id (MessageType \<circ> decode)
     (encode 0 example_uuid example_digest
        \<lparr>MessageType = js ''a '', SequenceNumber = 0, PayloadType = 1,
         Payload = []\<rparr>) = Inr (js ''a'')"
    using decode_padded_text [OF p, of 30]
    by (simp add: encode_eq decode_frame_MessageType)
  show ?thesis using c1 c2 c3 by blast
qed

text \<open>
  C2. The claim measures the payload in UTF-8 bytes; \<open>encode\<close> measures it in code
  units and stores the low byte of each. For the one-character payload U+00E9, whose
  UTF-8 encoding is the two bytes C3 A9, the buffer has 121 bytes, the PayloadLength
  field holds 1 and the payload area holds the single byte E9. For payloads of plain
  ASCII text the two measures agree (\<open>encode_ascii_payload_layout\<close>).
\<close>

theorem encode_non_ascii_payload:
  "utf8_encode [0xE9] = [0xC3, 0xA9] \<and>
   map_sum id length
     (encode 0 example_uuid example_digest
        \<lparr>MessageType = InputStreamDataMessage, SequenceNumber = 0,
         PayloadType = PayloadType_Output, Payload = [0xE9]\<rparr>) = Inr 121 \<and>
   map_sum id (take 4 \<circ> drop 116)
     (encode 0 example_uuid example_digest
        \<lparr>MessageType = InputStreamDataMessage, SequenceNumber = 0,
         PayloadType = PayloadType_Output, Payload = [0xE9]\<rparr>) = Inr [0, 0, 0, 1] \<and>
   map_sum id (drop 120)
     (encode 0 example_uuid example_digest
        \<lparr>MessageType = InputStreamDataMessage, SequenceNumber = 0,
         PayloadType = PayloadType_Output, Payload = [0xE9]\<rparr>) = Inr [0xE9]"
proof -
  let ?m = "\<lparr>MessageType = InputStreamDataMessage, SequenceNumber = 0,
             PayloadType = PayloadType_Output, Payload = [0xE9]\<rparr>"
  have r: "length example_uuid = 16" and d: "length (example_digest (Payload ?m)) = 32"
    and l: "length (MessageType ?m) \<le> 32"
    by (simp_all add: InputStreamDataMessage_def)
  have e: "encode 0 example_uuid example_digest ?m
             = Inr (frame 0 example_uuid (example_digest (Payload ?m)) ?m)"
    using encode_eq [of example_uuid example_digest ?m 0, OF r d l] .
  have u: "utf8_encode [0xE9] = [0xC3, 0xA9]"
    by (simp add: utf8_encode_def utf8_of_code_point_def scalar_value_def
        is_high_surrogate_def is_low_surrogate_def)
  have n: "int32_bytes 1 = [0, 0, 0, 1]"
    by (simp add: int32_bytes_def js_and_def js_sar_def toInt32_def toUint8_def)
  have f: "take 4 (drop 116 (frame 0 example_uuid (example_digest (Payload ?m)) ?m))
             = [0, 0, 0, 1]"
    using frame_PayloadLength [OF r d l, of 0] n by (simp add: field_def)
  have g: "drop 120 (frame 0 example_uuid (example_digest (Payload ?m)) ?m) = [0xE9]"
    using frame_Payload [OF r d l, of 0] by simp
  have h: "length (frame 0 example_uuid (example_digest (Payload ?m)) ?m) = 121"
    using length_frame [OF r d l, of 0] by simp
  show ?thesis
    unfolding e using u f g h by simp
qed

text \<open>
  C3 (as amended). \<open>encode\<close> stores the 16 bytes of the generated UUID in the
  MessageId field in the generator's order, that is, the most-significant half first.
  \<open>decode\<close> reads the first 8 bytes of the field as the least-significant half and
  the last 8 bytes as the most-significant half: the decoded MessageId is the canonical
  text of bytes 8 to 15 followed by bytes 0 to 7. So decoding an encoded frame gives the
  generated UUID with its two halves exchanged.
\<close>

theorem message_id_halves_exchanged:
  assumes "length rnds = 16" and "length (sha256 (Payload m)) = 32"
    and "length (MessageType m) \<le> 32"
  shows "\<exists>buffer. encode now rnds sha256 m = Inr buffer \<and>
           take 16 (drop 64 buffer) = rnds \<and>
           MessageId (decode buffer) = uuid_string (drop 8 rnds @ take 8 rnds)"
  using encode_eq [of rnds sha256 m now, OF assms] decode_frame_MessageId [OF assms, of now]
    frame_MessageId [OF assms, of now]
  by (simp add: field_def)

theorem message_id_halves_exchanged_witness:
  "map_sum id (take 16 \<circ> drop 64)
     (encode 0 example_uuid example_digest
        \<lparr>MessageType = AcknowledgeMessage, SequenceNumber = 0,
         PayloadType = PayloadType_Output, Payload = []\<rparr>) = Inr example_uuid \<and>
   map_sum id (MessageId \<circ> decode)
     (encode 0 example_uuid example_digest
        \<lparr>MessageType = AcknowledgeMessage, SequenceNumber = 0,
         PayloadType = PayloadType_Output, Payload = []\<rparr>)
     = Inr (uuid_string [0x08, 0x09, 0x0a, 0x0b, 0x0c, 0x0d, 0x0e, 0x0f,
                         0x00, 0x01, 0x02, 0x03, 0x04, 0x05, 0x06, 0x07])"
proof -
  let ?m = "\<lparr>MessageType = AcknowledgeMessage, SequenceNumber = 0,
             PayloadType = PayloadType_Output, Payload = []\<rparr>"
  have r: "length example_uuid = 16" and d: "length (example_digest (Payload ?m)) = 32"
    and l: "length (MessageType ?m) \<le> 32"
    by (simp_all add: AcknowledgeMessage_def)
  obtain buffer where
    "encode 0 example_uuid example_digest ?m = Inr buffer"
    "take 16 (drop 64 buffer) = example_uuid"
    "MessageId (decode buffer) = uuid_string (drop 8 example_uuid @ take 8 example_uuid)"
    using message_id_halves_exchanged [of example_uuid example_digest ?m 0, OF r d l]
    by blast
  then show ?thesis by (simp add: example_uuid_def)
qed

text \<open>
  The claim says that decoding reconstructs the canonical text of the generated UUID.
  For the UUID 00010203-0405-0607-0809-0a0b0c0d0e0f the decoded MessageId is
  08090a0b-0c0d-0e0f-0001-020304050607.
\<close>

theorem message_id_counterexample:
  "uuid_string example_uuid = js ''00010203-0405-0607-0809-0a0b0c0d0e0f'' \<and>
   map_sum id (MessageId \<circ> decode)
     (encode 0 example_uuid example_digest
        \<lparr>MessageType = InputStreamDataMessage, SequenceNumber = 0, PayloadType = 1,
         Payload = []\<rparr>) = Inr (js ''08090a0b-0c0d-0e0f-0001-020304050607'')"
  by (simp add: encode_eq decode_frame_MessageId InputStreamDataMessage_def)
     (simp add: example_uuid_def js_def uuid_string_def hex_pair_def hex_digit_def)

section \<open>The claims about the session\<close>

text \<open>
  C4. Whatever message is handled, a recorded \<open>lastAcknowledgedSequenceNumber\<close> never
  decreases. Handling an \<open>acknowledge\<close> message whose control payload carries the
  acknowledged sequence number \<open>n\<close> sets it to \<open>n\<close> exactly when it is unset or
  strictly less than \<open>n\<close>, and changes nothing else. Fed to a new session in that
  order, acknowledgements of 5, 3 and 8 leave it at 8.
\<close>

theorem acknowledge_never_regresses:
  "(\<forall>s' k. handle_message rt now rnds s msg = Inr s' \<and>
           lastAcknowledgedSequenceNumber s = Some k \<longrightarrow>
           (\<exists>k'. lastAcknowledgedSequenceNumber s' = Some k' \<and> k \<le> k')) \<and>
   (MessageType msg = AcknowledgeMessage \<and> Payload msg \<noteq> [] \<and>
    JSON_parse rt (Payload msg) = Inr (JObject members) \<and>
    map_of members (js ''AcknowledgedMessageSequenceNumber'') = Some (JNumber n) \<longrightarrow>
    handle_message rt now rnds s msg =
      Inr (s\<lparr>lastAcknowledgedSequenceNumber :=
             (if lastAcknowledgedSequenceNumber s = None
                 \<or> the (lastAcknowledgedSequenceNumber s) < n
              then Some n else lastAcknowledgedSequenceNumber s)\<rparr>))"
  using handle_message_last [of rt now rnds s msg]
    acknowledge_step [of msg rt members n now rnds s]
  by blast

theorem acknowledge_never_regresses_witness:
  \<open>map_sum id lastAcknowledgedSequenceNumber
     (handle_messages example_runtime (new_session [] [] [])
        [(0, example_uuid,
          incoming AcknowledgeMessage (js ''{"AcknowledgedMessageSequenceNumber":5}'')),
         (0, example_uuid,
          incoming AcknowledgeMessage (js ''{"AcknowledgedMessageSequenceNumber":3}'')),
         (0, example_uuid,
          incoming AcknowledgeMessage (js ''{"AcknowledgedMessageSequenceNumber":8}''))])
   = Inr (Some 8)\<close>
proof -
  let ?rt = example_runtime
  let ?key = "js ''AcknowledgedMessageSequenceNumber''"
  let ?m5 = \<open>incoming AcknowledgeMessage (js ''{"AcknowledgedMessageSequenceNumber":5}'')\<close>
  let ?m3 = \<open>incoming AcknowledgeMessage (js ''{"AcknowledgedMessageSequenceNumber":3}'')\<close>
  let ?m8 = \<open>incoming AcknowledgeMessage (js ''{"AcknowledgedMessageSequenceNumber":8}'')\<close>
  let ?s0 = "new_session [] [] []"
  have t: "MessageType (incoming AcknowledgeMessage p) = AcknowledgeMessage" for p
    by (simp add: incoming_def)
  have ne: "Payload ?m5 \<noteq> []" "Payload ?m3 \<noteq> []" "Payload ?m8 \<noteq> []"
    by (simp_all add: incoming_def js_def)
  have p: "JSON_parse ?rt (Payload ?m5) = Inr (JObject [(?key, JNumber 5)])"
    "JSON_parse ?rt (Payload ?m3) = Inr (JObject [(?key, JNumber 3)])"
    "JSON_parse ?rt (Payload ?m8) = Inr (JObject [(?key, JNumber 8)])"
    by (simp_all add: example_runtime_def incoming_def example_parse_ack)
  have f: "map_of [(?key, JNumber n)] ?key = Some (JNumber n)" for n
    by simp
  define s1 where "s1 = ?s0\<lparr>lastAcknowledgedSequenceNumber := Some 5\<rparr>"
  define s3 where "s3 = s1\<lparr>lastAcknowledgedSequenceNumber := Some 8\<rparr>"
  have h1: "handle_message ?rt 0 example_uuid ?s0 ?m5 = Inr s1"
    using acknowledge_never_regresses
      [of ?rt 0 example_uuid ?s0 ?m5 "[(?key, JNumber 5)]" 5] t ne(1) p(1) f
    by (simp add: s1_def new_session_def)
  have h2: "handle_message ?rt 0 example_uuid s1 ?m3 = Inr s1"
    using acknowledge_never_regresses
      [of ?rt 0 example_uuid s1 ?m3 "[(?key, JNumber 3)]" 3] t ne(2) p(2) f
    by (simp add: s1_def)
  have h3: "handle_message ?rt 0 example_uuid s1 ?m8 = Inr s3"
    using acknowledge_never_regresses
      [of ?rt 0 example_uuid s1 ?m8 "[(?key, JNumber 8)]" 8] t ne(3) p(3) f
    by (simp add: s1_def s3_def)
  show ?thesis using h1 h2 h3 by (simp add: s3_def)
qed

text \<open>
  C5. Handling a \<open>start_publication\<close> message sets \<open>outgoingSequenceNumber\<close> to the
  last acknowledged sequence number if there is one and to 0 otherwise, whatever it was
  before, clears \<open>paused\<close>, and calls \<open>emit\<close> once, for the event \<open>resume\<close>; no
  frame is sent.
\<close>

theorem start_publication_resynchronises:
  assumes "MessageType msg = StartPublicationMessage"
  shows "\<exists>s'. handle_message rt now rnds s msg = Inr s' \<and>
           outgoingSequenceNumber s' =
             (case lastAcknowledgedSequenceNumber s of Some acked \<Rightarrow> acked | None \<Rightarrow> 0) \<and>
           \<not> paused s' \<and>
           emitted (trace s') = emitted (trace s) @ [(Ev_resume, [])] \<and>
           sent (trace s') = sent (trace s) \<and>
           lastAcknowledgedSequenceNumber s' = lastAcknowledgedSequenceNumber s"
  using assms
  by (simp add: handle_message_def StartPublicationMessage_def js_def Let_def
      emitted_emit sent_emit split: option.split)

theorem start_publication_resynchronises_witness:
  "map_sum id outgoingSequenceNumber
     (handle_message example_runtime 0 example_uuid
        ((new_session [] [] [])\<lparr>outgoingSequenceNumber := 9, paused := True,
                                  lastAcknowledgedSequenceNumber := Some 4\<rparr>)
        (incoming StartPublicationMessage [])) = Inr 4 \<and>
   map_sum id paused
     (handle_message example_runtime 0 example_uuid
        ((new_session [] [] [])\<lparr>outgoingSequenceNumber := 9, paused := True,
                                  lastAcknowledgedSequenceNumber := Some 4\<rparr>)
        (incoming StartPublicationMessage [])) = Inr False \<and>
   map_sum id (emitted \<circ> trace)
     (handle_message example_runtime 0 example_uuid
        ((new_session [] [] [])\<lparr>outgoingSequenceNumber := 9, paused := True,
                                  lastAcknowledgedSequenceNumber := Some 4\<rparr>)
        (incoming StartPublicationMessage [])) = Inr [(Ev_resume, [])]"
proof -
  let ?s = "(new_session [] [] [])\<lparr>outgoingSequenceNumber := 9, paused := True,
                                     lastAcknowledgedSequenceNumber := Some 4\<rparr>"
  have t: "MessageType (incoming StartPublicationMessage []) = StartPublicationMessage"
    by (simp add: incoming_def)
  obtain s' where
    "handle_message example_runtime 0 example_uuid ?s (incoming StartPublicationMessage [])
       = Inr s'"
    "outgoingSequenceNumber s' =
       (case lastAcknowledgedSequenceNumber ?s of Some acked \<Rightarrow> acked | None \<Rightarrow> 0)"
    "\<not> paused s'" "emitted (trace s') = emitted (trace ?s) @ [(Ev_resume, [])]"
    using start_publication_resynchronises [OF t, of example_runtime 0 example_uuid ?s]
    by blast
  then show ?thesis by (simp add: new_session_def)
qed






text \<open>
  C8. Handling a \<open>channel_closed\<close> message whose control payload is an object with
  the text member \<open>Output\<close> sets \<open>connectionTerminated\<close>; it emits one \<open>output\<close>
  event, the text followed by carriage return and line feed, when the text is not empty,
  and emits nothing when it is empty. For the payload \<open>{"Output":"done"}\<close> the event
  carries \<open>done\<close> followed by CR LF.
\<close>

theorem channel_closed_emits_final_output:
  assumes "MessageType msg = ChannelClosedMessage" and "Payload msg \<noteq> []"
    and "JSON_parse rt (Payload msg) = Inr (JObject members)"
    and "map_of members (js ''Output'') = Some (JString output)"
  shows "\<exists>s'. handle_message rt now rnds s msg = Inr s' \<and>
           connectionTerminated s' \<and>
           emitted (trace s') =
             emitted (trace s) @ (if output = [] then [] else [(Ev_output, output @ CRLF)])"
  using assms
  by (simp add: handle_message_def ChannelClosedMessage_def js_def channel_closed_case_def
      member_def channel_closed_output_def emitted_emit)

theorem channel_closed_emits_final_output_witness:
  \<open>map_sum id (emitted \<circ> trace)
     (handle_message example_runtime 0 example_uuid (new_session [] [] [])
        (incoming ChannelClosedMessage (js ''{"Output":"done"}'')))
     = Inr [(Ev_output, js ''done'' @ CRLF)] \<and>
   map_sum id connectionTerminated
     (handle_message example_runtime 0 example_uuid (new_session [] [] [])
        (incoming ChannelClosedMessage (js ''{"Output":"done"}''))) = Inr True \<and>
   map_sum id (emitted \<circ> trace)
     (handle_message example_runtime 0 example_uuid (new_session [] [] [])
        (incoming ChannelClosedMessage (js ''{"Output":""}''))) = Inr [] \<and>
   map_sum id connectionTerminated
     (handle_message example_runtime 0 example_uuid (new_session [] [] [])
        (incoming ChannelClosedMessage (js ''{"Output":""}''))) = Inr True\<close>
proof -
  let ?done = \<open>incoming ChannelClosedMessage (js ''{"Output":"done"}'')\<close>
  let ?none = \<open>incoming ChannelClosedMessage (js ''{"Output":""}'')\<close>
  let ?s = "new_session [] [] []"
  have t: "MessageType (incoming ChannelClosedMessage q) = ChannelClosedMessage" for q
    by (simp add: incoming_def)
  have ne: "Payload ?done \<noteq> []" "Payload ?none \<noteq> []"
    by (simp_all add: incoming_def js_def)
  have pd: "JSON_parse example_runtime (Payload ?done)
              = Inr (JObject [(js ''Output'', JString (js ''done''))])"
    and pn: "JSON_parse example_runtime (Payload ?none)
              = Inr (JObject [(js ''Output'', JString [])])"
    by (simp_all add: example_runtime_def incoming_def example_parse_closed)
  have f: "map_of [(js ''Output'', JString x)] (js ''Output'') = Some (JString x)" for x
    by simp
  have nd: "js ''done'' \<noteq> []" by (simp add: js_def)
  obtain s1 where s1:
    "handle_message example_runtime 0 example_uuid ?s ?done = Inr s1"
    "connectionTerminated s1"
    "emitted (trace s1) = emitted (trace ?s) @ [(Ev_output, js ''done'' @ CRLF)]"
    using channel_closed_emits_final_output
      [OF t ne(1) pd f, of 0 example_uuid ?s] nd
    by auto
  obtain s2 where s2:
    "handle_message example_runtime 0 example_uuid ?s ?none = Inr s2"
    "connectionTerminated s2"
    "emitted (trace s2) = emitted (trace ?s)"
    using channel_closed_emits_final_output
      [OF t ne(2) pn f, of 0 example_uuid ?s]
    by auto
  show ?thesis using s1 s2 by (simp add: new_session_def)
qed

section \<open>The claims about failures\<close>

text \<open>
  C9 (as amended). A message whose type tag has more than 32 code units, which for a
  tag of ASCII characters is more than 32 bytes, makes \<open>encode\<close> raise the error
  ``String is too long to encode''; no buffer is returned, whatever the clock, the
  generated UUID, the digest and the other fields are. \<open>putString\<close> compares the
  width of the slot with the tag's \<open>length\<close>, one unit per slot byte.
\<close>

theorem encode_rejects_long_message_type:
  "32 < length (MessageType m) \<Longrightarrow>
   encode now rnds sha256 m = Inl (Error ''String is too long to encode'')"
  by (rule encode_too_long)

theorem encode_rejects_long_message_type_witness:
  "32 < length (MessageType \<lparr>MessageType = replicate 33 0x41, SequenceNumber = 0,
                              PayloadType = 1, Payload = []\<rparr>) \<and>
   encode 0 example_uuid example_digest \<lparr>MessageType = replicate 33 0x41, SequenceNumber = 0,
                         PayloadType = 1, Payload = []\<rparr>
     = Inl (Error ''String is too long to encode'')"
  using encode_rejects_long_message_type
    [of "\<lparr>MessageType = replicate 33 0x41, SequenceNumber = 0,
           PayloadType = 1, Payload = []\<rparr>" 0 example_uuid example_digest]
  by simp

text \<open>
  The claim counts bytes. A tag of 17 characters U+00E9 takes 34 bytes in UTF-8 and has
  17 code units: \<open>encode\<close> accepts it and returns a buffer of 120 bytes. Tags are
  typed as members of the message type vocabulary, which is ASCII.
\<close>

theorem long_message_type_counterexample:
  "length (utf8_encode (replicate 17 0xE9)) = 34 \<and>
   map_sum id length
     (encode 0 example_uuid example_digest
        \<lparr>MessageType = replicate 17 0xE9, SequenceNumber = 0,
         PayloadType = PayloadType_Output, Payload = []\<rparr>) = Inr 120"
proof -
  have a: "length (utf8_encode (replicate 17 0xE9)) = 34"
    by (simp add: utf8_encode_two_byte length_concat sum_list_replicate)
  let ?m = "\<lparr>MessageType = replicate 17 0xE9, SequenceNumber = 0,
             PayloadType = PayloadType_Output, Payload = []\<rparr>"
  have r: "length example_uuid = 16" and d: "length (example_digest (Payload ?m)) = 32"
    and l: "length (MessageType ?m) \<le> 32"
    by simp_all
  have "encode 0 example_uuid example_digest ?m
          = Inr (frame 0 example_uuid (example_digest (Payload ?m)) ?m)"
    using encode_eq [of example_uuid example_digest ?m 0, OF r d l] .
  then show ?thesis using a length_frame [OF r d l, of 0] by simp
qed

text \<open>
  C10. \<open>decode\<close> has no failing branch: slicing clamps to the buffer, the text
  decoder replaces malformed input, and every fold starts from an initial value, so it
  returns a message for every buffer. A field whose slice starts at or after the end of
  the buffer is empty text, the integer 0, or the MessageId ``----'' (four separators
  around five empty groups). The payload starts at headerLength + 4, and headerLength is
  read from the buffer: with fewer than four bytes it is not negative, so the payload is
  empty.
\<close>

theorem decode_short_buffer:
  "(length buffer \<le> 4 \<longrightarrow> MessageType (decode buffer) = []) \<and>
   (length buffer \<le> 48 \<longrightarrow> SequenceNumber (decode buffer) = 0) \<and>
   (length buffer \<le> 64 \<longrightarrow> MessageId (decode buffer) = js ''----'') \<and>
   (length buffer \<le> 112 \<longrightarrow> PayloadType (decode buffer) = 0) \<and>
   (length buffer < 4 \<longrightarrow> Payload (decode buffer) = [])"
proof -
  have mt: "length buffer \<le> 4 \<Longrightarrow> MessageType (decode buffer) = []"
    by (simp add: decode_def Let_def decodeText_beyond trimEnd_def Offset_defs Length_defs)
  have sq: "length buffer \<le> 48 \<Longrightarrow> SequenceNumber (decode buffer) = 0"
    by (simp add: decode_def Let_def decodeInt_beyond Offset_defs Length_defs)
  have mi: "length buffer \<le> 64 \<Longrightarrow> MessageId (decode buffer) = js ''----''"
    by (simp add: decode_def Let_def decodeUuid_beyond Offset_defs Length_defs)
  have pt: "length buffer \<le> 112 \<Longrightarrow> PayloadType (decode buffer) = 0"
    by (simp add: decode_def Let_def decodeInt_beyond Offset_defs Length_defs)
  have pl: "Payload (decode buffer) = []" if "length buffer < 4"
  proof -
    have "0 \<le> decodeInt buffer 0 4" using that by (rule decodeInt_short_nonneg)
    then have "decodeText buffer (decodeInt buffer 0 4 + 4) None = []"
      using that by (intro decodeText_beyond) simp_all
    then show ?thesis by (simp add: decode_def Let_def Offset_defs Length_defs)
  qed
  show ?thesis using mt sq mi pt pl by blast
qed

theorem decode_short_buffer_witness:
  "decode [1, 2, 3] = \<lparr>MessageType = [], SequenceNumber = 0, PayloadType = 0,
                        Payload = [], MessageId = js ''----''\<rparr>"
  using decode_short_buffer [of "[1, 2, 3]"] by simp

end
